theory Spec2Isabelle
  imports Complex_Main "HOL-Library.Word"
begin

unbundle bit_operations_syntax

section \<open>JavaScript primitives used by the sources\<close>

text \<open>
  JavaScript strings are modelled as HOL strings, integers that stay below \<open>2^53\<close> as
  \<open>int\<close> or \<open>nat\<close>, and the remaining double-valued quantities (ratios, averages,
  random draws) as exact rationals.  \<open>undefined\<close> and \<open>null\<close> are \<open>None\<close>, a
  thrown exception is \<open>Inl\<close> of a sum.
\<close>

datatype js_error = TypeError string | CapabilityError string | NotFound string

text \<open>Array indexing \<open>xs[i]\<close>: \<open>undefined\<close> outside \<open>0 .. length - 1\<close>.\<close>

definition js_index :: "'a list \<Rightarrow> int \<Rightarrow> 'a option" where
  "js_index xs i = (if 0 \<le> i \<and> i < int (length xs) then Some (xs ! nat i) else None)"

text \<open>The remainder operator \<open>a % b\<close> truncates: the result has the sign of \<open>a\<close>.\<close>

definition js_rem :: "int \<Rightarrow> int \<Rightarrow> int" where
  "js_rem a b = sgn a * (\<bar>a\<bar> mod \<bar>b\<bar>)"

text \<open>\<open>ToInt32\<close> and the bitwise \<open>a ^ b\<close>, whose result is a signed 32-bit integer.\<close>

definition ToInt32 :: "int \<Rightarrow> 32 word" where
  "ToInt32 n = word_of_int n"

definition js_xor :: "int \<Rightarrow> int \<Rightarrow> int" where
  "js_xor a b = sint (ToInt32 a XOR ToInt32 b)"

text \<open>\<open>Math.round\<close> rounds halves towards plus infinity.\<close>

definition Math_round :: "rat \<Rightarrow> int" where
  "Math_round x = \<lfloor>x + 1 / 2\<rfloor>"

subsection \<open>Strings\<close>

text \<open>\<open>s.toLowerCase()\<close>: the letters \<open>A\<close> to \<open>Z\<close> are lowered, other characters kept.\<close>

definition lower_char :: "char \<Rightarrow> char" where
  "lower_char c =
     (case map_of (zip ''ABCDEFGHIJKLMNOPQRSTUVWXYZ'' ''abcdefghijklmnopqrstuvwxyz'') c of
        Some l \<Rightarrow> l
      | None \<Rightarrow> c)"

definition toLowerCase :: "string \<Rightarrow> string" where
  "toLowerCase s = map lower_char s"

definition is_digit :: "char \<Rightarrow> bool" where
  "is_digit c = (48 \<le> (of_char c :: nat) \<and> (of_char c :: nat) \<le> 57)"

definition is_space :: "char \<Rightarrow> bool" where
  "is_space c = ((of_char c :: nat) \<in> {9, 10, 11, 12, 13, 32})"

fun startsWith :: "string \<Rightarrow> string \<Rightarrow> bool" where
  "startsWith s [] = True"
| "startsWith [] (p # ps) = False"
| "startsWith (c # cs) (p # ps) = (c = p \<and> startsWith cs ps)"

text \<open>\<open>s.includes(p)\<close>, which is also \<open>/p/.test(s)\<close> for a pattern of plain letters.\<close>

fun includes_str :: "string \<Rightarrow> string \<Rightarrow> bool" where
  "includes_str [] p = (p = [])"
| "includes_str (c # cs) p = (startsWith (c # cs) p \<or> includes_str cs p)"

text \<open>An alternation of plain words, \<open>/w1|w2|...|wn/.test(s)\<close>.\<close>

definition test_any :: "string list \<Rightarrow> string \<Rightarrow> bool" where
  "test_any ws s = list_ex (includes_str s) ws"

text \<open>
  The same with the \<open>i\<close> flag.  On the letters of the patterns in this program, matching
  without regard to case is matching the lower-cased subject.
\<close>

definition test_any_i :: "string list \<Rightarrow> string \<Rightarrow> bool" where
  "test_any_i ws s = test_any ws (toLowerCase s)"

text \<open>\<open>s.trim()\<close>.\<close>

definition trim :: "string \<Rightarrow> string" where
  "trim s = rev (dropWhile is_space (rev (dropWhile is_space s)))"

text \<open>An integer inside a template literal: its decimal digits.\<close>

function show_nat :: "nat \<Rightarrow> string" where
  "show_nat n =
     (if n < 10 then [''0123456789'' ! n]
      else show_nat (n div 10) @ [''0123456789'' ! (n mod 10)])"
  by pat_completeness auto
termination
  by (relation "measure id") auto

definition show_int :: "int \<Rightarrow> string" where
  "show_int i = (if i < 0 then ''-'' @ show_nat (nat (- i)) else show_nat (nat i))"

definition quoted :: "string \<Rightarrow> string" where
  "quoted s = [CHR 0x22] @ s @ [CHR 0x22]"

subsection \<open>\<open>parseInt(s, 16)\<close>\<close>

definition hex_val :: "char \<Rightarrow> nat option" where
  "hex_val c =
     (let n = (of_char c :: nat) in
      if 48 \<le> n \<and> n \<le> 57 then Some (n - 48)
      else if 97 \<le> n \<and> n \<le> 102 then Some (n - 87)
      else if 65 \<le> n \<and> n \<le> 70 then Some (n - 55)
      else None)"

text \<open>The longest prefix of hexadecimal digits, folded into its value.\<close>

fun hex_prefix :: "nat \<Rightarrow> string \<Rightarrow> nat" where
  "hex_prefix acc [] = acc"
| "hex_prefix acc (c # cs) =
     (case hex_val c of None \<Rightarrow> acc | Some d \<Rightarrow> hex_prefix (16 * acc + d) cs)"

definition strip_0x :: "string \<Rightarrow> string" where
  "strip_0x s = (if startsWith s ''0x'' \<or> startsWith s ''0X'' then drop 2 s else s)"

text \<open>
  \<open>parseInt\<close> skips leading white space, reads an optional sign and an optional
  \<open>0x\<close>, then the longest run of digits; with no digit the result is \<open>NaN\<close>
  (\<open>None\<close>).
\<close>

definition parseInt16 :: "string \<Rightarrow> int option" where
  "parseInt16 s =
     (let t = dropWhile is_space s;
          neg = startsWith t ''-'';
          u = (if startsWith t ''-'' \<or> startsWith t ''+'' then drop 1 t else t);
          z = strip_0x u
      in case z of
           [] \<Rightarrow> None
         | c # cs \<Rightarrow>
             (case hex_val c of
                None \<Rightarrow> None
              | Some d \<Rightarrow> Some ((if neg then - 1 else 1) * int (hex_prefix 0 z))))"

text \<open>\<open>acc ^ parseInt(...)\<close>: \<open>ToInt32 (NaN)\<close> is 0.\<close>

definition xor_parsed :: "int \<Rightarrow> int option \<Rightarrow> int" where
  "xor_parsed acc p = js_xor acc (case p of None \<Rightarrow> 0 | Some n \<Rightarrow> n)"

section \<open>github.js: commit records and their analysis\<close>

record Author =
  name :: string
  login :: "string option"
  avatar :: "string option"

text \<open>
  A \<open>Date\<close> object holds an instant in milliseconds; \<open>JSON.stringify\<close> writes it as
  its ISO-8601 string, which \<open>JSON.parse\<close> returns as a string.  \<open>DateString t\<close>
  stands for the ISO string of the instant \<open>t\<close>.
\<close>

datatype js_date = DateObject int | DateString int

text \<open>
  The record \<open>parseCommit\<close> builds.  Its field \<open>stats\<close> is the constant \<open>null\<close> and is
  left out.  \<open>hour\<close> and \<open>dayOfWeek\<close> come from \<open>Date.getHours\<close> and \<open>Date.getDay\<close>
  of a valid date, so they are natural numbers; \<open>timestamp\<close> is in milliseconds.
\<close>

record CommitRecord =
  sha :: string
  shortSha :: string
  message :: string
  subject :: string
  body :: string
  author :: Author
  date :: js_date
  hour :: nat
  dayOfWeek :: nat
  timestamp :: int

record MusicParams =
  bpm :: int
  voices :: int
  mode :: string
  complexity :: rat
  energy :: rat

record CommitAnalysis =
  totalCommits :: nat
  authors :: "string list"
  authorCount :: nat
  peakHour :: int
  avgMsgLen :: rat
  fixRatio :: rat
  featRatio :: rat
  refactorRatio :: rat
  commitsPerDay :: rat
  daySpan :: rat
  hashSeed :: int
  music :: MusicParams

text \<open>\<open>[...new Set(xs)]\<close>: the distinct elements in order of first occurrence.\<close>

definition new_Set :: "'a list \<Rightarrow> 'a list" where
  "new_Set xs = foldl (\<lambda>acc x. if x \<in> set acc then acc else acc @ [x]) [] xs"

text \<open>\<open>xs.indexOf(v)\<close>: the first index holding \<open>v\<close>, or \<open>-1\<close>.\<close>

fun indexOf_from :: "int \<Rightarrow> 'a list \<Rightarrow> 'a \<Rightarrow> int" where
  "indexOf_from i [] v = - 1"
| "indexOf_from i (x # xs) v = (if x = v then i else indexOf_from (i + 1) xs v)"

definition indexOf :: "'a list \<Rightarrow> 'a \<Rightarrow> int" where
  "indexOf xs v = indexOf_from 0 xs v"

text \<open>
  \<open>hourCounts\<close> starts as 24 zeros and \<open>hourCounts[c.hour]++\<close> runs for each commit.
  An hour of 24 or more would store \<open>NaN\<close> past the end of the array, after which
  \<open>Math.max(...hourCounts)\<close> is \<open>NaN\<close> and \<open>indexOf\<close> answers \<open>-1\<close>.
\<close>

definition hourCounts :: "CommitRecord list \<Rightarrow> nat list" where
  "hourCounts commits = foldl (\<lambda>hc c. hc[hour c := hc ! hour c + 1]) (replicate 24 0) commits"

definition peakHour_of :: "CommitRecord list \<Rightarrow> int" where
  "peakHour_of commits =
     (if list_ex (\<lambda>c. 24 \<le> hour c) commits then - 1
      else indexOf (hourCounts commits) (Max (set (hourCounts commits))))"

definition fixPattern :: "string list" where
  "fixPattern = [''fix'', ''bug'', ''patch'', ''hotfix'']"

definition featPattern :: "string list" where
  "featPattern = [''feat'', ''add'', ''new'', ''implement'']"

definition refactorPattern :: "string list" where
  "refactorPattern = [''refactor'', ''clean'', ''improve'', ''update'']"

definition count_matching :: "string list \<Rightarrow> CommitRecord list \<Rightarrow> nat" where
  "count_matching pat commits = length (filter (\<lambda>c. test_any_i pat (subject c)) commits)"

text \<open>The seed: \<open>commits.slice(0, 5).reduce((acc, c) => acc ^ parseInt(c.sha.slice(0, 8), 16), 0)\<close>.\<close>

definition hashSeed_of :: "CommitRecord list \<Rightarrow> int" where
  "hashSeed_of commits =
     foldl (\<lambda>acc c. xor_parsed acc (parseInt16 (take 8 (sha c)))) 0 (take 5 commits)"

definition analyzeCommits :: "CommitRecord list \<Rightarrow> CommitAnalysis option" where
  "analyzeCommits commits =
     (if commits = [] then None
      else
        let authors = new_Set (map (\<lambda>c. name (author c)) commits);
            totalCommits = length commits;
            peakHour = peakHour_of commits;
            avgMsgLen = rat_of_nat (foldl (\<lambda>s c. s + length (subject c)) 0 commits)
                          / rat_of_nat totalCommits;
            fixCount = count_matching fixPattern commits;
            featCount = count_matching featPattern commits;
            refactorCount = count_matching refactorPattern commits;
            oldest = timestamp (last commits);
            newest = timestamp (hd commits);
            daySpan = max 1 (rat_of_int (newest - oldest) / (1000 * 60 * 60 * 24));
            commitsPerDay = rat_of_nat totalCommits / daySpan;
            hashSeed = hashSeed_of commits
        in Some \<lparr>
             totalCommits = totalCommits,
             authors = authors,
             authorCount = length authors,
             peakHour = peakHour,
             avgMsgLen = avgMsgLen,
             fixRatio = rat_of_nat fixCount / rat_of_nat totalCommits,
             featRatio = rat_of_nat featCount / rat_of_nat totalCommits,
             refactorRatio = rat_of_nat refactorCount / rat_of_nat totalCommits,
             commitsPerDay = commitsPerDay,
             daySpan = daySpan,
             hashSeed = hashSeed,
             music = \<lparr>
               bpm = Math_round (60 + min 80 (commitsPerDay * 8)),
               voices = min 4 (max 1 (int (length authors))),
               mode = (if 6 \<le> peakHour \<and> peakHour \<le> 18 then ''major'' else ''minor''),
               complexity = min 1 (rat_of_nat (fixCount + refactorCount)
                                    / rat_of_nat (max 1 totalCommits) * 3),
               energy = min 1 (commitsPerDay / 10) \<rparr> \<rparr>)"

text \<open>The fields of a commit that \<open>analyzeCommits\<close> reads.\<close>

definition analysis_view :: "CommitRecord \<Rightarrow> string \<times> string \<times> nat \<times> string \<times> int" where
  "analysis_view c = (sha c, name (author c), hour c, subject c, timestamp c)"

section \<open>music-engine.js: the seeded generator and the choice of key\<close>

definition ROOTS :: "string list" where
  "ROOTS = [''C'', ''C#'', ''D'', ''D#'', ''E'', ''F'', ''F#'', ''G'', ''G#'', ''A'', ''A#'', ''B'']"

text \<open>
  \<open>SeededRNG\<close> keeps one unsigned 32-bit integer.  The constructor applies
  \<open>seed >>> 0\<close>.  In \<open>next\<close> the product and the sum are computed on doubles; they
  stay below \<open>2^53\<close>, so they are exact and \<open>>>> 0\<close> reduces them modulo \<open>2^32\<close>.
\<close>

record SeededRNG =
  seed :: nat

definition new_SeededRNG :: "int \<Rightarrow> SeededRNG" where
  "new_SeededRNG s = \<lparr> seed = nat (s mod 2 ^ 32) \<rparr>"

definition rng_next :: "SeededRNG \<Rightarrow> rat \<times> SeededRNG" where
  "rng_next r =
     (let s = (seed r * 1664525 + 1013904223) mod 2 ^ 32
      in (rat_of_nat s / rat_of_nat 0xFFFFFFFF, r\<lparr>seed := s\<rparr>))"

definition rng_nextInt :: "SeededRNG \<Rightarrow> int \<Rightarrow> int \<Rightarrow> int \<times> SeededRNG" where
  "rng_nextInt r lo hi =
     (let (x, r') = rng_next r in (\<lfloor>x * rat_of_int (hi - lo + 1)\<rfloor> + lo, r'))"

definition rng_pick :: "SeededRNG \<Rightarrow> 'a list \<Rightarrow> 'a option \<times> SeededRNG" where
  "rng_pick r arr = (let (i, r') = rng_nextInt r 0 (int (length arr) - 1) in (js_index arr i, r'))"

text \<open>The values \<open>next\<close> yields on successive calls.\<close>

fun rng_outputs :: "SeededRNG \<Rightarrow> nat \<Rightarrow> rat list" where
  "rng_outputs r 0 = []"
| "rng_outputs r (Suc n) = (let (x, r') = rng_next r in x # rng_outputs r' n)"

text \<open>
  \<open>MusicEngine.init\<close>, the key: the root is \<open>ROOTS[analysis.hashSeed % 12]\<close>, and the
  scale is picked from the style's \<open>scalePreference\<close> by the first draw of
  \<open>new SeededRNG(analysis.hashSeed)\<close>.
\<close>

definition rootIdx :: "CommitAnalysis \<Rightarrow> int" where
  "rootIdx analysis = js_rem (hashSeed analysis) 12"

definition init_root :: "CommitAnalysis \<Rightarrow> string option" where
  "init_root analysis = js_index ROOTS (rootIdx analysis)"

definition scalePreference :: "string \<Rightarrow> string list" where
  "scalePreference st =
     (if st = ''scifi'' then [''dorian'', ''phrygian'', ''minor'']
      else if st = ''horror'' then [''diminished'', ''phrygian'', ''minor'']
      else [''major'', ''minor'', ''dorian''])"

definition init_scaleName :: "string \<Rightarrow> CommitAnalysis \<Rightarrow> string option" where
  "init_scaleName st analysis = fst (rng_pick (new_SeededRNG (hashSeed analysis)) (scalePreference st))"

section \<open>story-engine.js: the data of a game\<close>

text \<open>
  A choice is \<open>{label, text}\<close>; a scene is \<open>{narrative, choices, isEpilogue?}\<close>, where an
  absent \<open>isEpilogue\<close> reads as false.  A history entry is
  \<open>{narrative, choice, commitSha}\<close>, where \<open>choice\<close> is the \<open>text\<close> of what was chosen
  and may be \<open>undefined\<close>; a quest entry is \<open>{text, chapter}\<close>.
\<close>

record Choice =
  label :: string
  ctext :: string

record Scene =
  narrative :: string
  choices :: "Choice list"
  isEpilogue :: bool

record HistoryEntry =
  h_narrative :: string
  h_choice :: "string option"
  commitSha :: "string option"

record QuestEntry =
  q_text :: string
  q_chapter :: int

record Repo =
  owner :: string
  repo_name :: string

record GameState =
  repo :: Repo
  style :: string
  commits :: "CommitRecord list"
  analysis :: "CommitAnalysis option"
  commitIndex :: int
  chapterNo :: int
  hp :: int
  maxHp :: int
  xp :: int
  level :: int
  inventory :: "string list"
  questLog :: "QuestEntry list"
  history :: "HistoryEntry list"
  currentScene :: "Scene option"
  startedAt :: int
  savedAt :: "int option"

section \<open>The environment\<close>

text \<open>
  What the program reads from outside is explicit.  \<open>rand_draws\<close> lists the values of
  successive \<open>Math.random()\<close> calls and \<open>clock_reads\<close> those of \<open>Date.now()\<close>;
  \<open>capability\<close> is the language model, local or remote: its \<open>n\<close>-th request with a system
  and a user prompt either fails or returns text.  \<open>localStorage\<close> maps keys to stored
  text, where \<open>StateJson s\<close> stands for the JSON text of the game state \<open>s\<close>.  Writing to
  \<open>localStorage\<close> is taken to succeed.  The observers \<open>onSceneReady\<close>,
  \<open>onStatsUpdate\<close> and \<open>onQuestUpdate\<close> only receive values and are left out.
\<close>

datatype stored = StateJson GameState | OtherText string

record AIEngine =
  aiMode :: string
  apiKey :: string

record World =
  rand_draws :: "nat \<Rightarrow> rat"
  rand_used :: nat
  clock_reads :: "nat \<Rightarrow> int"
  clock_used :: nat
  capability :: "nat \<Rightarrow> string \<Rightarrow> string \<Rightarrow> js_error + string"
  requests :: nat
  localStorage :: "string \<Rightarrow> stored option"
  aiEngine :: AIEngine

definition Math_random :: "World \<Rightarrow> rat \<times> World" where
  "Math_random w = (rand_draws w (rand_used w), w\<lparr>rand_used := Suc (rand_used w)\<rparr>)"

definition Date_now :: "World \<Rightarrow> int \<times> World" where
  "Date_now w = (clock_reads w (clock_used w), w\<lparr>clock_used := Suc (clock_used w)\<rparr>)"

definition complete :: "World \<Rightarrow> string \<Rightarrow> string \<Rightarrow> (js_error + string) \<times> World" where
  "complete w sys usr = (capability w (requests w) sys usr, w\<lparr>requests := Suc (requests w)\<rparr>)"

text \<open>\<open>Math.random()\<close> returns a value in \<open>[0, 1)\<close>.\<close>

definition random_ok :: "World \<Rightarrow> bool" where
  "random_ok w = (\<forall>n. 0 \<le> rand_draws w n \<and> rand_draws w n < 1)"

text \<open>
  A table indexed by the style, \<open>table[style] || table.dnd\<close>, for the three styles
  \<open>'dnd' | 'scifi' | 'horror'\<close> the program passes.
\<close>

definition by_style :: "string \<Rightarrow> 'a \<Rightarrow> 'a \<Rightarrow> 'a \<Rightarrow> 'a" where
  "by_style st d s h =
     (if st = ''dnd'' then d else if st = ''scifi'' then s else if st = ''horror'' then h else d)"

definition styles :: "string list" where
  "styles = [''dnd'', ''scifi'', ''horror'']"

section \<open>ai-engine.js\<close>

definition nl :: string where
  "nl = [CHR 0x0A]"

definition SYSTEM_PROMPT_dnd :: string where
  \<open>SYSTEM_PROMPT_dnd =
     ''You are the Dungeon Master of GitQuest, a text adventure game where a software repository's commit history has been transformed into a fantasy world.'' @ nl @
     [] @ nl @
     ''Rules:'' @ nl @
     ''- Commits are "quests" or "events" in the realm'' @ nl @
     ''- Bug fixes are battles against monsters or curses'' @ nl @
     ''- New features are magical discoveries or artifacts'' @ nl @
     ''- Contributors are heroes, wizards, or guild members'' @ nl @
     ''- The codebase is a living dungeon, castle, or ancient tome'' @ nl @
     ''- Refactors are "great cleansings" or "restructuring of the realm"'' @ nl @
     ''- Merge conflicts are "wars between factions"'' @ nl @
     [] @ nl @
     ''Write in the style of classic D&D: dramatic, epic, with old-English flavor. Keep responses to 3-5 sentences of vivid narrative, then offer exactly 3 choices. Format choices as:'' @ nl @
     ''[A] First choice'' @ nl @
     ''[B] Second choice  '' @ nl @
     ''[C] Third choice''\<close>

definition SYSTEM_PROMPT_scifi :: string where
  \<open>SYSTEM_PROMPT_scifi =
     ''You are the Ship's AI of GitQuest, a text adventure game where a software repository's commit history has been transformed into a science fiction universe.'' @ nl @
     [] @ nl @
     ''Rules:'' @ nl @
     ''- Commits are "mission logs" or "system updates"'' @ nl @
     ''- Bug fixes are "critical system failures" being resolved'' @ nl @
     ''- New features are "technological breakthroughs" or "new modules"'' @ nl @
     ''- Contributors are "crew members" or "specialist units"'' @ nl @
     ''- The codebase is a living starship or space station'' @ nl @
     ''- Refactors are "system overhauls" or "core architecture upgrades"'' @ nl @
     ''- Merge conflicts are "signal interference" or "faction disputes"'' @ nl @
     [] @ nl @
     ''Write in the style of hard sci-fi: technical, terse, with mission-log formatting. Keep responses to 3-5 sentences, then offer exactly 3 choices. Format choices as:'' @ nl @
     ''[A] First choice'' @ nl @
     ''[B] Second choice'' @ nl @
     ''[C] Third choice''\<close>

definition SYSTEM_PROMPT_horror :: string where
  \<open>SYSTEM_PROMPT_horror =
     ''You are the Narrator of GitQuest, a text horror adventure where a software repository's commit history has been transformed into a dark, terrifying world.'' @ nl @
     [] @ nl @
     ''Rules:'' @ nl @
     ''- Commits are "dark events" or "disturbances in the code"'' @ nl @
     ''- Bug fixes are "attempts to contain the horror"'' @ nl @
     ''- New features are "dangerous experiments" or "forbidden knowledge"'' @ nl @
     ''- Contributors are "survivors" or "those who came before"'' @ nl @
     ''- The codebase is a haunted mansion, asylum, or cursed artifact'' @ nl @
     ''- Refactors are "desperate attempts to restore order"'' @ nl @
     ''- Merge conflicts are "fractures in reality" or "the horror spreading"'' @ nl @
     [] @ nl @
     ''Write in the style of psychological horror: dread-filled, atmospheric, with a sense of creeping doom. Keep responses to 3-5 sentences, then offer exactly 3 choices. Format choices as:'' @ nl @
     ''[A] First choice'' @ nl @
     ''[B] Second choice'' @ nl @
     ''[C] Third choice''\<close>

definition SYSTEM_PROMPTS :: "string \<Rightarrow> string" where
  "SYSTEM_PROMPTS st = by_style st SYSTEM_PROMPT_dnd SYSTEM_PROMPT_scifi SYSTEM_PROMPT_horror"

text \<open>\<open>xs.join(sep)\<close>.\<close>

fun join :: "string \<Rightarrow> string list \<Rightarrow> string" where
  "join sep [] = []"
| "join sep [x] = x"
| "join sep (x # y # ys) = x @ sep @ join sep (y # ys)"

text \<open>
  \<open>buildUserPrompt\<close>.  \<open>gameState\<close> is passed as its three fields; \<open>playerChoice\<close> is
  \<open>null\<close> or a string, and the empty string counts as absent.
\<close>

definition buildUserPrompt ::
  "CommitRecord \<Rightarrow> CommitRecord option \<Rightarrow> string \<Rightarrow> int \<Rightarrow> int \<Rightarrow> string list
     \<Rightarrow> string option \<Rightarrow> int \<Rightarrow> nat \<Rightarrow> string" where
  "buildUserPrompt commit prevCommit st g_hp g_xp g_inventory playerChoice currentCommitIndex totalN =
     (let progress = show_int (currentCommitIndex + 1) @ ''/'' @ show_nat totalN;
          timeOfDay = (if hour commit < 6 then ''dead of night''
                       else if hour commit < 12 then ''morning''
                       else if hour commit < 18 then ''afternoon'' else ''evening'');
          p1 = ''Repository event '' @ progress @ '':'' @ nl
                 @ ''Commit: '' @ quoted (subject commit) @ nl
                 @ ''Author: '' @ name (author commit) @ nl
                 @ ''Time: '' @ timeOfDay @ nl;
          p2 = (if body commit \<noteq> [] then p1 @ ''Details: '' @ take 200 (body commit) @ nl else p1);
          p3 = (case prevCommit of
                  None \<Rightarrow> p2
                | Some pc \<Rightarrow> p2 @ ''Previous event: '' @ quoted (subject pc) @ nl);
          p4 = (case playerChoice of
                  None \<Rightarrow> p3
                | Some ch \<Rightarrow> if ch = [] then p3
                             else p3 @ nl @ ''The player chose: '' @ quoted ch @ nl);
          p5 = p4 @ nl @ ''Player stats: HP '' @ show_int g_hp @ ''/100, XP '' @ show_int g_xp @ nl;
          p6 = (if g_inventory \<noteq> [] then p5 @ ''Inventory: '' @ join '', '' g_inventory @ nl else p5)
      in p6 @ nl @ ''Narrate this commit as a '' @ st
           @ '' story event. Include the player's previous choice consequences if any. End with exactly 3 choices labeled [A], [B], [C].'')"

subsection \<open>\<open>parseAIResponse\<close>\<close>

text \<open>
  The choices are the matches of \<open>/\[([ABC])\]\s*(.+?)(?=\[[ABC]\]|$)/gs\<close>.  A match
  starts at a marker \<open>[A]\<close>, \<open>[B]\<close> or \<open>[C]\<close> that is not at the very end of the text.
  \<open>\s*\<close> takes the white space after the marker, but gives its last character back when
  nothing else follows; the lazy \<open>.+?\<close> takes one character and then as few as possible
  until the next marker or the end of the text, where the search resumes.
\<close>

definition is_marker :: "string \<Rightarrow> bool" where
  "is_marker s = (startsWith s ''[A]'' \<or> startsWith s ''[B]'' \<or> startsWith s ''[C]'')"

fun lazy_until_marker :: "string \<Rightarrow> string \<times> string" where
  "lazy_until_marker [] = ([], [])"
| "lazy_until_marker (c # cs) =
     (if is_marker (c # cs) then ([], c # cs)
      else (c # fst (lazy_until_marker cs), snd (lazy_until_marker cs)))"

text \<open>The text after a marker: where group 2 starts.\<close>

definition body_start :: "string \<Rightarrow> string" where
  "body_start after =
     (if dropWhile is_space after = [] then [last after] else dropWhile is_space after)"

function exec_all :: "string \<Rightarrow> Choice list" where
  "exec_all [] = []"
| "exec_all (c # cs) =
     (if is_marker (c # cs) \<and> drop 2 cs \<noteq> []
      then \<lparr> label = [hd cs],
             ctext = trim (hd (body_start (drop 2 cs)) # fst (lazy_until_marker (tl (body_start (drop 2 cs))))) \<rparr>
           # exec_all (snd (lazy_until_marker (tl (body_start (drop 2 cs)))))
      else exec_all cs)"
  by pat_completeness auto
termination
proof (relation "measure length")
  show "wf (measure length)"
    by simp
next
  fix c :: char and cs :: string
  have snd_le: "length (snd (lazy_until_marker s)) \<le> length s" for s
    by (induction s) auto
  have "length (tl (body_start (drop 2 cs))) \<le> length cs"
  proof (cases "dropWhile is_space (drop 2 cs) = []")
    case True
    then show ?thesis by (simp add: body_start_def)
  next
    case False
    have "length (dropWhile is_space (drop 2 cs)) \<le> length (drop 2 cs)"
      by (rule length_dropWhile_le)
    with False show ?thesis by (simp add: body_start_def)
  qed
  with snd_le [of "tl (body_start (drop 2 cs))"]
  show "(snd (lazy_until_marker (tl (body_start (drop 2 cs)))), c # cs) \<in> measure length"
    by simp
next
  fix c :: char and cs :: string
  show "(cs, c # cs) \<in> measure length"
    by simp
qed

text \<open>\<open>text.search(/\[A\]/)\<close>: the first index of \<open>[A]\<close>, or \<open>-1\<close>.\<close>

fun search_from :: "int \<Rightarrow> string \<Rightarrow> string \<Rightarrow> int" where
  "search_from i [] p = (if p = [] then i else - 1)"
| "search_from i (c # cs) p = (if startsWith (c # cs) p then i else search_from (i + 1) cs p)"

definition default_choices :: "Choice list" where
  "default_choices =
     [\<lparr> label = ''A'', ctext = ''Press forward boldly'' \<rparr>,
      \<lparr> label = ''B'', ctext = ''Proceed with caution'' \<rparr>,
      \<lparr> label = ''C'', ctext = ''Seek more information'' \<rparr>]"

definition parseAIResponse :: "string \<Rightarrow> Scene" where
  "parseAIResponse text =
     (let found = exec_all text;
          firstChoiceIdx = search_from 0 text ''[A]'';
          narr = (if 0 < firstChoiceIdx then trim (take (nat firstChoiceIdx) text) else trim text)
      in \<lparr> narrative = narr,
           choices = (if found = [] then default_choices else found),
           isEpilogue = False \<rparr>)"

subsection \<open>The deterministic fallback\<close>

definition pickClass :: "CommitRecord \<Rightarrow> string" where
  "pickClass commit =
     (let msg = toLowerCase (subject commit) in
      if test_any [''fix'', ''bug''] msg then ''Paladin''
      else if test_any [''feat'', ''add''] msg then ''Wizard''
      else if test_any [''refactor''] msg then ''Druid''
      else if test_any [''test''] msg then ''Ranger''
      else if test_any [''doc''] msg then ''Bard''
      else ''Adventurer'')"

text \<open>
  \<open>Math.round((currentCommitIndex / total) * 100)\<close> inside a template literal; a zero
  \<open>total\<close> gives \<open>NaN\<close> or \<open>Infinity\<close>.
\<close>

definition percent_text :: "nat \<Rightarrow> nat \<Rightarrow> string" where
  "percent_text i totalN =
     (if totalN = 0 then (if i = 0 then ''NaN'' else ''Infinity'')
      else show_int (Math_round (rat_of_nat i / rat_of_nat totalN * 100)))"

text \<open>The em dash of the third horror template, as its UTF-8 bytes.\<close>

definition em_dash :: string where
  "em_dash = [CHR 0xE2, CHR 0x80, CHR 0x94]"

definition templates_dnd :: "CommitRecord \<Rightarrow> nat \<Rightarrow> nat \<Rightarrow> string list" where
  "templates_dnd commit currentCommitIndex totalN =
     [''The ancient chronicles speak of '' @ quoted (subject commit) @ ''. '' @ name (author commit)
        @ '' the '' @ pickClass commit @ '' stands at a crossroads, their quest ''
        @ percent_text currentCommitIndex totalN @ ''% complete. The realm holds its breath.'',
      ''A great deed was wrought this day: '' @ quoted (subject commit) @ ''. The wizard ''
        @ name (author commit)
        @ '' has altered the very fabric of the realm. Dark forces stir in response.'',
      ''The guild records note that '' @ name (author commit) @ '' has completed ''
        @ quoted (subject commit) @ ''. Heroes gather to decide the next course of action.'']"

definition templates_scifi :: "CommitRecord \<Rightarrow> nat \<Rightarrow> nat \<Rightarrow> rat \<Rightarrow> string list" where
  "templates_scifi commit currentCommitIndex totalN r =
     [''MISSION LOG '' @ show_nat (currentCommitIndex + 1) @ ''/'' @ show_nat totalN
        @ '': Crew member '' @ name (author commit) @ '' reports: '' @ quoted (subject commit)
        @ ''. Ship systems nominal. Awaiting orders.'',
      ''ALERT: '' @ name (author commit) @ '' has executed protocol '' @ quoted (subject commit)
        @ ''. System integrity at '' @ show_int (Math_round (80 + r * 20))
        @ ''%. Multiple response vectors available.'',
      ''TRANSMISSION RECEIVED from '' @ name (author commit) @ '': '' @ quoted (subject commit)
        @ ''. The crew awaits your command, Captain.'']"

definition templates_horror :: "CommitRecord \<Rightarrow> string list" where
  "templates_horror commit =
     [''The log entry reads, in '' @ name (author commit) @ '''s trembling hand: ''
        @ quoted (subject commit) @ ''. Something has changed. You can feel it in the walls.'',
      name (author commit) @ '' did something. The entry says '' @ quoted (subject commit)
        @ ''. That was three days ago. No one has seen them since.'',
      ''You find a note: '' @ quoted (subject commit) @ '' '' @ em_dash @ '' signed by ''
        @ name (author commit) @ ''. The ink is still fresh. Or is that something else?'']"

definition choiceSets :: "string \<Rightarrow> Choice list" where
  "choiceSets st =
     by_style st
       [\<lparr> label = ''A'', ctext = ''Draw your sword and face what lies ahead'' \<rparr>,
        \<lparr> label = ''B'', ctext = ''Consult the ancient scrolls for guidance'' \<rparr>,
        \<lparr> label = ''C'', ctext = ''Seek allies before proceeding'' \<rparr>]
       [\<lparr> label = ''A'', ctext = ''Execute primary mission objective'' \<rparr>,
        \<lparr> label = ''B'', ctext = ''Run diagnostics and assess the situation'' \<rparr>,
        \<lparr> label = ''C'', ctext = ''Contact command for further instructions'' \<rparr>]
       [\<lparr> label = ''A'', ctext = ''Go deeper. You need to know the truth.'' \<rparr>,
        \<lparr> label = ''B'', ctext = ''Stay where you are. Moving feels wrong.'' \<rparr>,
        \<lparr> label = ''C'', ctext = ''Try to leave. While you still can.'' \<rparr>]"

text \<open>
  \<open>generateFallbackScene({commit, style, currentCommitIndex, total})\<close>.  All nine
  templates are built before one is chosen, so an \<open>undefined\<close> commit throws at
  \<open>commit.subject\<close>, and one \<open>Math.random()\<close> is drawn on every call that has a commit.
  \<open>currentCommitIndex\<close> is the index \<open>commit\<close> was read at and \<open>total\<close> a length.
\<close>

definition generateFallbackScene ::
  "World \<Rightarrow> CommitRecord option \<Rightarrow> string \<Rightarrow> nat \<Rightarrow> nat \<Rightarrow> (js_error + Scene) \<times> World" where
  "generateFallbackScene w commit st currentCommitIndex totalN =
     (case commit of
        None \<Rightarrow> (Inl (TypeError ''Cannot read properties of undefined (reading 'subject')''), w)
      | Some c \<Rightarrow>
          let (r, w') = Math_random w;
              pool = by_style st
                       (templates_dnd c currentCommitIndex totalN)
                       (templates_scifi c currentCommitIndex totalN r)
                       (templates_horror c)
          in (Inr \<lparr> narrative = pool ! (currentCommitIndex mod length pool),
                    choices = choiceSets st,
                    isEpilogue = False \<rparr>, w'))"

subsection \<open>The AI producer\<close>

text \<open>
  \<open>generateViaLocal\<close> catches a failure of the model and calls
  \<open>generateFallbackScene(...arguments)\<close>, that is, with the two prompt strings: the
  destructured \<open>commit\<close> is \<open>undefined\<close> there.  \<open>generateViaAPI\<close> lets a failure
  through.
\<close>

definition generateViaLocal :: "World \<Rightarrow> string \<Rightarrow> string \<Rightarrow> (js_error + Scene) \<times> World" where
  "generateViaLocal w systemPrompt userPrompt =
     (case complete w systemPrompt userPrompt of
        (Inr text, w') \<Rightarrow> (Inr (parseAIResponse text), w')
      | (Inl err, w') \<Rightarrow> generateFallbackScene w' None [] 0 0)"

definition generateViaAPI :: "World \<Rightarrow> string \<Rightarrow> string \<Rightarrow> (js_error + Scene) \<times> World" where
  "generateViaAPI w systemPrompt userPrompt =
     (case complete w systemPrompt userPrompt of
        (Inr text, w') \<Rightarrow> (Inr (parseAIResponse text), w')
      | (Inl err, w') \<Rightarrow> (Inl err, w'))"

text \<open>\<open>a || b\<close> on two array reads.\<close>

definition or_else :: "'a option \<Rightarrow> 'a option \<Rightarrow> 'a option" where
  "or_else a b = (case a of Some x \<Rightarrow> Some x | None \<Rightarrow> b)"

definition generateScene ::
  "World \<Rightarrow> CommitRecord list \<Rightarrow> int \<Rightarrow> string \<Rightarrow> int \<Rightarrow> int \<Rightarrow> string list \<Rightarrow> string option
     \<Rightarrow> (js_error + Scene) \<times> World" where
  "generateScene w cs currentCommitIndex st g_hp g_xp g_inventory playerChoice =
     (case or_else (js_index cs currentCommitIndex) (js_index cs 0) of
        None \<Rightarrow> (Inl (TypeError ''Cannot read properties of undefined (reading 'hour')''), w)
      | Some commit \<Rightarrow>
          let prevCommit = js_index cs (currentCommitIndex - 1);
              userPrompt = buildUserPrompt commit prevCommit st g_hp g_xp g_inventory playerChoice
                             currentCommitIndex (length cs);
              systemPrompt = SYSTEM_PROMPTS st
          in if aiMode (aiEngine w) = ''api'' \<and> apiKey (aiEngine w) \<noteq> []
             then generateViaAPI w systemPrompt userPrompt
             else generateViaLocal w systemPrompt userPrompt)"

section \<open>storage.js: save slots\<close>

definition SAVE_PREFIX :: string where
  "SAVE_PREFIX = ''gitquest:save:''"

text \<open>
  \<open>JSON.stringify\<close> of a game state keeps every number, string, \<open>null\<close> and array as it
  is; the one kind of value in a state that changes is a \<open>Date\<close> object, written as its
  ISO string.  \<open>JSON.parse\<close> of the text of a state gives that state back; any other
  stored text is taken not to parse.
\<close>

definition toJSON_commit :: "CommitRecord \<Rightarrow> CommitRecord" where
  "toJSON_commit c = c\<lparr>date := (case date c of DateObject t \<Rightarrow> DateString t | DateString t \<Rightarrow> DateString t)\<rparr>"

definition JSON_stringify :: "GameState \<Rightarrow> stored" where
  "JSON_stringify s = StateJson (s\<lparr>commits := map toJSON_commit (commits s)\<rparr>)"

definition JSON_parse :: "stored \<Rightarrow> js_error + GameState" where
  "JSON_parse raw =
     (case raw of
        StateJson s \<Rightarrow> Inr s
      | OtherText t \<Rightarrow> Inl (TypeError ''SyntaxError''))"

text \<open>\<open>storage.saveGame(slot, state)\<close> stores \<open>{...state, savedAt: Date.now()}\<close>.\<close>

definition storage_saveGame :: "World \<Rightarrow> string \<Rightarrow> GameState \<Rightarrow> World" where
  "storage_saveGame w slot s =
     (let (t, w') = Date_now w
      in w'\<lparr>localStorage :=
              (localStorage w')(SAVE_PREFIX @ slot \<mapsto> JSON_stringify (s\<lparr>savedAt := Some t\<rparr>))\<rparr>)"

text \<open>\<open>storage.loadGame(slot)\<close>: \<open>null\<close> for a missing, empty or unreadable slot.\<close>

definition storage_loadGame :: "World \<Rightarrow> string \<Rightarrow> GameState option" where
  "storage_loadGame w slot =
     (case localStorage w (SAVE_PREFIX @ slot) of
        None \<Rightarrow> None
      | Some raw \<Rightarrow> (case JSON_parse raw of Inl err \<Rightarrow> None | Inr s \<Rightarrow> Some s))"

section \<open>story-engine.js: the state machine\<close>

definition createInitialState ::
  "World \<Rightarrow> Repo \<Rightarrow> string \<Rightarrow> CommitRecord list \<Rightarrow> CommitAnalysis option \<Rightarrow> GameState \<times> World" where
  "createInitialState w rp st cs an =
     (let (t, w') = Date_now w
      in (\<lparr> repo = rp, style = st, commits = cs, analysis = an,
            commitIndex = 0, chapterNo = 1,
            hp = 100, maxHp = 100, xp = 0, level = 1, inventory = [], questLog = [],
            history = [], currentScene = None,
            startedAt = t, savedAt = None \<rparr>, w'))"

definition XP_PER_LEVEL :: "int list" where
  "XP_PER_LEVEL = [0, 100, 250, 450, 700, 1000, 1400, 1900, 2500, 3200]"

text \<open>The engine object: \<open>this.state\<close> (\<open>null\<close> before a game) and \<open>this.generating\<close>.\<close>

record StoryEngine =
  state :: "GameState option"
  generating :: bool

definition new_StoryEngine :: StoryEngine where
  "new_StoryEngine = \<lparr> state = None, generating = False \<rparr>"

text \<open>\<open>loadGame(slot)\<close> throws when the slot holds no save, else replaces \<open>this.state\<close>.\<close>

definition loadGame :: "StoryEngine \<times> World \<Rightarrow> string \<Rightarrow> js_error + StoryEngine" where
  "loadGame ew slot =
     (case storage_loadGame (snd ew) slot of
        None \<Rightarrow> Inl (NotFound ''Save not found'')
      | Some saved \<Rightarrow> Inr ((fst ew)\<lparr>state := Some saved\<rparr>))"

text \<open>\<open>saveGame(slot)\<close> stamps the live state, then stores it.\<close>

definition saveGame :: "StoryEngine \<times> World \<Rightarrow> string \<Rightarrow> StoryEngine \<times> World" where
  "saveGame ew slot =
     (case state (fst ew) of
        None \<Rightarrow> ew
      | Some s \<Rightarrow>
          let (t, w1) = Date_now (snd ew);
              s' = s\<lparr>savedAt := Some t\<rparr>
          in ((fst ew)\<lparr>state := Some s'\<rparr>, storage_saveGame w1 slot s'))"

text \<open>\<open>addQuestEntry\<close>: newest first, at most 10 entries.\<close>

definition addQuestEntry :: "GameState \<Rightarrow> string \<Rightarrow> GameState" where
  "addQuestEntry s t =
     (let q = \<lparr> q_text = t, q_chapter = chapterNo s \<rparr> # questLog s
      in s\<lparr>questLog := (if 10 < length q then butlast q else q)\<rparr>)"

subsection \<open>The player's selection\<close>

text \<open>
  \<open>makeChoice\<close> receives what the interface passes to \<open>onChoice\<close>: the index of a
  choice button, a number, or the text typed into the custom-choice input, a trimmed,
  non-empty string.
\<close>

datatype selection = Index int | Text string

text \<open>
  The guard reads \<open>scene.choices[choiceIndex]\<close>.  With a number that is the element at
  the index.  With a string it is a property read on the array: a canonical decimal index
  reads the element; \<open>length\<close> reads the number of choices, falsy when 0; a name that
  arrays inherit from \<open>Array.prototype\<close> or \<open>Object.prototype\<close> (ECMAScript 2023) reads a
  function or an object; any other name reads \<open>undefined\<close>.  \<open>OtherValue\<close> stands for a
  truthy value that is not a choice and has no \<open>text\<close>.
\<close>

datatype chosen = ChoiceObj Choice | OtherValue

definition inherited_properties :: "string list" where
  "inherited_properties =
     [''at'', ''concat'', ''constructor'', ''copyWithin'', ''entries'', ''every'', ''fill'',
      ''filter'', ''find'', ''findIndex'', ''findLast'', ''findLastIndex'', ''flat'', ''flatMap'',
      ''forEach'', ''includes'', ''indexOf'', ''join'', ''keys'', ''lastIndexOf'', ''map'', ''pop'',
      ''push'', ''reduce'', ''reduceRight'', ''reverse'', ''shift'', ''slice'', ''some'', ''sort'',
      ''splice'', ''toLocaleString'', ''toReversed'', ''toSorted'', ''toSpliced'', ''toString'',
      ''unshift'', ''values'', ''with'', ''hasOwnProperty'', ''isPrototypeOf'',
      ''propertyIsEnumerable'', ''valueOf'', ''__proto__'', ''__defineGetter__'',
      ''__defineSetter__'', ''__lookupGetter__'', ''__lookupSetter__'']"

text \<open>A canonical array index: decimal digits with no leading zero.\<close>

definition digit_val :: "char \<Rightarrow> nat" where
  "digit_val c = (of_char c :: nat) - 48"

definition canonical_index :: "string \<Rightarrow> nat option" where
  "canonical_index t =
     (if t \<noteq> [] \<and> list_all is_digit t \<and> (t = ''0'' \<or> hd t \<noteq> CHR ''0'')
      then Some (foldl (\<lambda>a c. 10 * a + digit_val c) 0 t)
      else None)"

definition choices_at :: "Choice list \<Rightarrow> selection \<Rightarrow> chosen option" where
  "choices_at cs sel =
     (case sel of
        Index i \<Rightarrow> map_option ChoiceObj (js_index cs i)
      | Text t \<Rightarrow>
          (case canonical_index t of
             Some n \<Rightarrow> map_option ChoiceObj (js_index cs (int n))
           | None \<Rightarrow>
               if t = ''length'' then (if cs = [] then None else Some OtherValue)
               else if t \<in> set inherited_properties then Some OtherValue
               else None))"

text \<open>\<open>choice.text\<close>: \<open>undefined\<close> on a number, a function or a prototype object.\<close>

definition chosen_text :: "chosen \<Rightarrow> string option" where
  "chosen_text ch = (case ch of ChoiceObj c \<Rightarrow> Some (ctext c) | OtherValue \<Rightarrow> None)"

subsection \<open>\<open>applyChoiceConsequences\<close>, block by block\<close>

text \<open>\<open>XP_PER_LEVEL[level] || 9999\<close>.\<close>

definition nextLevelXp :: "int \<Rightarrow> int" where
  "nextLevelXp lvl =
     (case js_index XP_PER_LEVEL lvl of
        None \<Rightarrow> 9999
      | Some v \<Rightarrow> if v = 0 then 9999 else v)"

text \<open>XP gain (always): \<open>20 + Math.floor(Math.random() * 30)\<close>.\<close>

definition gainXp :: "World \<Rightarrow> GameState \<Rightarrow> GameState \<times> World" where
  "gainXp w s =
     (let (r, w') = Math_random w;
          xpGain = 20 + \<lfloor>r * 30\<rfloor>
      in (s\<lparr>xp := xp s + xpGain\<rparr>, w'))"

text \<open>Level up check.\<close>

definition levelUpCheck :: "GameState \<Rightarrow> GameState" where
  "levelUpCheck s =
     (if nextLevelXp (level s) \<le> xp s \<and> level s < 10
      then let s1 = s\<lparr>level := level s + 1\<rparr>;
               s2 = s1\<lparr>maxHp := maxHp s1 + 10\<rparr>;
               s3 = s2\<lparr>hp := min (hp s2 + 20) (maxHp s2)\<rparr>
           in addQuestEntry s3 (''Level '' @ show_int (level s3) @ '' reached!'')
      else s)"

text \<open>
  HP changes based on commit type: \<open>/fix|bug|patch/.test(msg)\<close>.  The tests
  \<open>index === 0\<close> and \<open>index === 2\<close> are strict, so they fail on every string.
\<close>

definition hpChange :: "string \<Rightarrow> selection \<Rightarrow> GameState \<Rightarrow> GameState" where
  "hpChange msg index s =
     (if test_any [''fix'', ''bug'', ''patch''] msg
      then let hpDelta = (if index = Index 0 then - 10 else if index = Index 2 then 5 else 0)
           in s\<lparr>hp := max 1 (min (maxHp s) (hp s + hpDelta))\<rparr>
      else s)"

definition ITEMS :: "string \<Rightarrow> string list" where
  "ITEMS st =
     by_style st
       [''Magic Scroll'', ''Enchanted Sword'', ''Ancient Tome'', ''Healing Potion'', ''Dragon Scale'']
       [''Energy Cell'', ''Neural Chip'', ''Plasma Rifle'', ''Nano-med Kit'', ''Quantum Drive'']
       [''Torn Page'', ''Rusty Key'', ''Strange Amulet'', ''Faded Photo'', ''Cracked Mirror'']"

text \<open>
  Inventory items from notable commits: \<open>/feat|add|new/.test(msg) && Math.random() > 0.6\<close>,
  then \<open>pool[Math.floor(Math.random() * pool.length)]\<close>.  The second draw is in
  \<open>[0, 1)\<close> and so indexes the pool; no double lies between \<open>0.6\<close> and \<open>3/5\<close>.
\<close>

definition inventoryGain :: "World \<Rightarrow> string \<Rightarrow> GameState \<Rightarrow> GameState \<times> World" where
  "inventoryGain w msg s =
     (if test_any [''feat'', ''add'', ''new''] msg
      then let (r, w1) = Math_random w
           in if 3 / 5 < r
              then let pool = ITEMS (style s);
                       (r2, w2) = Math_random w1
                   in (case js_index pool \<lfloor>r2 * rat_of_nat (length pool)\<rfloor> of
                         None \<Rightarrow> (s, w2)
                       | Some item \<Rightarrow>
                           if item \<notin> set (inventory s) \<and> length (inventory s) < 8
                           then (s\<lparr>inventory := inventory s @ [item]\<rparr>, w2)
                           else (s, w2))
              else (s, w1)
      else (s, w))"

text \<open>\<open>/v\d/.test(s)\<close>.\<close>

fun has_v_digit :: "string \<Rightarrow> bool" where
  "has_v_digit [] = False"
| "has_v_digit [c] = False"
| "has_v_digit (c # d # cs) = ((c = CHR ''v'' \<and> is_digit d) \<or> has_v_digit (d # cs))"

text \<open>Quest log entries.\<close>

definition questEntries :: "string \<Rightarrow> GameState \<Rightarrow> GameState" where
  "questEntries msg s =
     (let s1 = (if test_any [''refactor'', ''clean''] msg
                then addQuestEntry s ''The Great Restructuring begins...'' else s);
          s2 = (if test_any [''release'', ''version''] msg \<or> has_v_digit msg
                then addQuestEntry s1 ''A new era dawns!'' else s1)
      in if test_any [''merge''] msg then addQuestEntry s2 ''Factions united (or divided)'' else s2)"

definition applyChoiceConsequences ::
  "World \<Rightarrow> GameState \<Rightarrow> chosen \<Rightarrow> selection \<Rightarrow> GameState \<times> World" where
  "applyChoiceConsequences w s choice index =
     (let commit = js_index (commits s) (commitIndex s);
          (s1, w1) = gainXp w s;
          s2 = levelUpCheck s1;
          msg = (case commit of None \<Rightarrow> [] | Some c \<Rightarrow> toLowerCase (subject c));
          s3 = hpChange msg index s2;
          (s4, w2) = inventoryGain w1 msg s3
      in (questEntries msg s4, w2))"

subsection \<open>Scenes\<close>

text \<open>
  \<open>generateNextScene\<close>: nothing when a generation is in flight; else the AI producer,
  and on its failure the fallback for the current commit.  The \<open>finally\<close> clears the flag
  on every path.  The first component of the result is the exception that escapes, if any.
\<close>

definition generateNextScene ::
  "StoryEngine \<times> World \<Rightarrow> string option \<Rightarrow> js_error option \<times> StoryEngine \<times> World" where
  "generateNextScene ew playerChoice =
     (if generating (fst ew) then (None, fst ew, snd ew)
      else
        case state (fst ew) of
          None \<Rightarrow> (Some (TypeError ''Cannot read properties of null (reading 'commits')''),
                   (fst ew)\<lparr>generating := False\<rparr>, snd ew)
        | Some s \<Rightarrow>
            (case generateScene (snd ew) (commits s) (commitIndex s) (style s)
                    (hp s) (xp s) (inventory s) playerChoice of
               (Inr scene, w1) \<Rightarrow>
                 (None, \<lparr> state = Some (s\<lparr>currentScene := Some scene\<rparr>), generating = False \<rparr>, w1)
             | (Inl err, w1) \<Rightarrow>
                 (case generateFallbackScene w1 (js_index (commits s) (commitIndex s)) (style s)
                         (nat (commitIndex s)) (length (commits s)) of
                    (Inr scene, w2) \<Rightarrow>
                      (None, \<lparr> state = Some (s\<lparr>currentScene := Some scene\<rparr>), generating = False \<rparr>, w2)
                  | (Inl err2, w2) \<Rightarrow> (Some err2, (fst ew)\<lparr>generating := False\<rparr>, w2))))"

definition epilogue_choices :: "Choice list" where
  "epilogue_choices =
     [\<lparr> label = ''A'', ctext = ''Begin a new quest with another repository'' \<rparr>,
      \<lparr> label = ''B'', ctext = ''Replay this adventure with a different style'' \<rparr>,
      \<lparr> label = ''C'', ctext = ''Return to the beginning'' \<rparr>]"

definition epilogues :: "GameState \<Rightarrow> string" where
  "epilogues s =
     by_style (style s)
       (''The chronicles are complete. '' @ show_nat (length (commits s))
          @ '' quests have been recorded in the great tome. The realm stands transformed by your choices. Your legend will be sung for ages to come. HP: ''
          @ show_int (hp s) @ ''/'' @ show_int (maxHp s) @ '' | Level: '' @ show_int (level s)
          @ '' | XP: '' @ show_int (xp s))
       (''MISSION COMPLETE. All '' @ show_nat (length (commits s))
          @ '' mission logs have been processed. The ship's journey is recorded in the annals of the fleet. Your decisions have shaped the future of the crew. Final Status: HP ''
          @ show_int (hp s) @ ''/'' @ show_int (maxHp s) @ '' | Rank: '' @ show_int (level s)
          @ '' | Merit: '' @ show_int (xp s))
       (''It's over. Or is it? You've witnessed all '' @ show_nat (length (commits s))
          @ '' events in this cursed repository. You survived. Most don't. The code remains. It always remains. HP: ''
          @ show_int (hp s) @ ''/'' @ show_int (maxHp s) @ '' | Sanity: ''
          @ show_int (level s * 10) @ ''%'')"

definition generateEpilogue :: "GameState \<Rightarrow> GameState" where
  "generateEpilogue s =
     s\<lparr>currentScene := Some \<lparr> narrative = epilogues s, choices = epilogue_choices, isEpilogue = True \<rparr>\<rparr>"

subsection \<open>\<open>makeChoice\<close> and \<open>startGame\<close>\<close>

text \<open>
  \<open>makeChoice(choiceIndex)\<close>.  In \<open>generateNextScene(choice.text)\<close> an \<open>undefined\<close>
  argument takes the default \<open>null\<close>.
\<close>

definition makeChoice ::
  "StoryEngine \<times> World \<Rightarrow> selection \<Rightarrow> js_error option \<times> StoryEngine \<times> World" where
  "makeChoice ew choiceIndex =
     (if state (fst ew) = None \<or> generating (fst ew) then (None, fst ew, snd ew)
      else
        case state (fst ew) of
          None \<Rightarrow> (None, fst ew, snd ew)
        | Some s \<Rightarrow>
            (case currentScene s of
               None \<Rightarrow> (None, fst ew, snd ew)
             | Some scene \<Rightarrow>
                 (case choices_at (choices scene) choiceIndex of
                    None \<Rightarrow> (None, fst ew, snd ew)
                  | Some choice \<Rightarrow>
                      let s1 = s\<lparr>history := history s @
                                 [\<lparr> h_narrative = narrative scene, h_choice = chosen_text choice,
                                    commitSha = map_option sha (js_index (commits s) (commitIndex s)) \<rparr>]\<rparr>;
                          (s2, w1) = applyChoiceConsequences (snd ew) s1 choice choiceIndex;
                          s3 = s2\<lparr>commitIndex := min (commitIndex s2 + 1) (int (length (commits s2)) - 1)\<rparr>;
                          s4 = s3\<lparr>chapterNo := commitIndex s3 div 10 + 1\<rparr>
                      in if int (length (commits s4)) - 1 \<le> commitIndex s4 \<and> 1 < length (history s4)
                         then (None, (fst ew)\<lparr>state := Some (generateEpilogue s4)\<rparr>, w1)
                         else
                           (case generateNextScene ((fst ew)\<lparr>state := Some s4\<rparr>, w1) (chosen_text choice) of
                              (Some err, e', w2) \<Rightarrow> (Some err, e', w2)
                            | (None, e', w2) \<Rightarrow> (None, saveGame (e', w2) ''auto'')))))"

definition startGame ::
  "StoryEngine \<times> World \<Rightarrow> Repo \<Rightarrow> string \<Rightarrow> CommitRecord list \<Rightarrow> CommitAnalysis option
     \<Rightarrow> js_error option \<times> StoryEngine \<times> World" where
  "startGame ew rp st cs an =
     (let (s0, w1) = createInitialState (snd ew) rp st cs an
      in generateNextScene ((fst ew)\<lparr>state := Some s0\<rparr>, w1) None)"

text \<open>
  A playthrough: the choices of a list made one after the other, each on the scene the
  previous one left.  \<open>accepted\<close> says that \<open>makeChoice\<close> passes its guards.
\<close>

definition accepted :: "StoryEngine \<Rightarrow> selection \<Rightarrow> bool" where
  "accepted e i =
     (\<not> generating e \<and>
      (case state e of
         None \<Rightarrow> False
       | Some s \<Rightarrow> (case currentScene s of
                      None \<Rightarrow> False
                    | Some scene \<Rightarrow> choices_at (choices scene) i \<noteq> None)))"

fun play :: "StoryEngine \<times> World \<Rightarrow> selection list \<Rightarrow> StoryEngine \<times> World" where
  "play ew [] = ew"
| "play ew (i # is) = play (snd (makeChoice ew i)) is"

text \<open>
  The straight-line part of an accepted \<open>makeChoice\<close>: record the turn, apply the
  consequences, advance the cursor, update the chapter.  \<open>at_end\<close> is the end condition
  tested next.
\<close>

definition resolveTurn ::
  "World \<Rightarrow> GameState \<Rightarrow> Scene \<Rightarrow> chosen \<Rightarrow> selection \<Rightarrow> GameState \<times> World" where
  "resolveTurn w s scene choice choiceIndex =
     (let s1 = s\<lparr>history := history s @
                [\<lparr> h_narrative = narrative scene, h_choice = chosen_text choice,
                   commitSha = map_option sha (js_index (commits s) (commitIndex s)) \<rparr>]\<rparr>;
          (s2, w1) = applyChoiceConsequences w s1 choice choiceIndex;
          s3 = s2\<lparr>commitIndex := min (commitIndex s2 + 1) (int (length (commits s2)) - 1)\<rparr>;
          s4 = s3\<lparr>chapterNo := commitIndex s3 div 10 + 1\<rparr>
      in (s4, w1))"

definition at_end :: "GameState \<Rightarrow> bool" where
  "at_end s = (int (length (commits s)) - 1 \<le> commitIndex s \<and> 1 < length (history s))"

text \<open>The state of a game in progress: a cursor inside a non-empty commit list.\<close>

definition in_game :: "GameState \<Rightarrow> bool" where
  "in_game s = (commits s \<noteq> [] \<and> 0 \<le> commitIndex s \<and> commitIndex s < int (length (commits s)))"

text \<open>The bounds on the player's statistics.\<close>

definition stats_ok :: "GameState \<Rightarrow> bool" where
  "stats_ok s =
     (1 \<le> hp s \<and> hp s \<le> maxHp s \<and> 1 \<le> level s \<and> level s \<le> 10
      \<and> length (inventory s) \<le> 8 \<and> distinct (inventory s))"

text \<open>What the turn on the current commit does to the level: \<open>xp'\<close> is the XP after the gain.\<close>

definition levels_up :: "GameState \<Rightarrow> int \<Rightarrow> bool" where
  "levels_up s xp' = (nextLevelXp (level s) \<le> xp' \<and> level s < 10)"

definition hpDelta_of :: "selection \<Rightarrow> int" where
  "hpDelta_of index = (if index = Index 0 then - 10 else if index = Index 2 then 5 else 0)"

definition current_subject :: "GameState \<Rightarrow> string" where
  "current_subject s = subject (commits s ! nat (commitIndex s))"

text \<open>
  The lower-cased subject of the current commit, \<open>commit?.subject?.toLowerCase() || ''\<close>,
  and the statistics a turn leaves, written from the state before the turn: the first
  random draw of the turn sets the XP gain.
\<close>

definition msg_of :: "GameState \<Rightarrow> string" where
  "msg_of s = (case js_index (commits s) (commitIndex s) of None \<Rightarrow> [] | Some c \<Rightarrow> toLowerCase (subject c))"

definition first_draw :: "World \<Rightarrow> rat" where
  "first_draw w = rand_draws w (rand_used w)"

definition xp_after :: "World \<Rightarrow> GameState \<Rightarrow> int" where
  "xp_after w s = xp s + 20 + \<lfloor>first_draw w * 30\<rfloor>"

definition hp_after :: "World \<Rightarrow> GameState \<Rightarrow> selection \<Rightarrow> int" where
  "hp_after w s i =
     (let up = levels_up s (xp_after w s);
          h1 = (if up then min (hp s + 20) (maxHp s + 10) else hp s);
          m1 = (if up then maxHp s + 10 else maxHp s)
      in if test_any [''fix'', ''bug'', ''patch''] (msg_of s)
         then max 1 (min m1 (h1 + hpDelta_of i)) else h1)"

text \<open>An engine between two turns of a game in progress.\<close>

definition game_ok :: "StoryEngine \<Rightarrow> bool" where
  "game_ok e =
     (\<not> generating e \<and>
      (case state e of
         None \<Rightarrow> False
       | Some s \<Rightarrow> in_game s \<and> stats_ok s \<and> currentScene s \<noteq> None))"

definition scene_of :: "StoryEngine \<times> World \<Rightarrow> Scene option" where
  "scene_of ew = (case state (fst ew) of None \<Rightarrow> None | Some s \<Rightarrow> currentScene s)"

text \<open>The epilogue is on screen: the current scene is an epilogue with three choices.\<close>

definition epilogue_shown :: "StoryEngine \<times> World \<Rightarrow> bool" where
  "epilogue_shown ew =
     (case scene_of ew of None \<Rightarrow> False | Some sc \<Rightarrow> isEpilogue sc \<and> length (choices sc) = 3)"

section \<open>Fixtures\<close>

text \<open>A commit as \<open>parseCommit\<close> builds it, from a SHA, a subject, an hour and an instant.\<close>

definition fixture_commit :: "string \<Rightarrow> string \<Rightarrow> nat \<Rightarrow> int \<Rightarrow> CommitRecord" where
  "fixture_commit h subj hr t =
     \<lparr> sha = h, shortSha = take 7 h, message = subj, subject = take 120 subj, body = [],
       author = \<lparr> name = ''Ada'', login = Some ''ada'', avatar = None \<rparr>,
       date = DateObject t, hour = hr, dayOfWeek = 1, timestamp = t \<rparr>"

definition sha_high_bit :: string where
  "sha_high_bit = ''ffffffff2b1c4d5e6f708192a3b4c5d6e7f80910''"

definition sha_rng_one :: string where
  "sha_rng_one = ''26f5b7200a1b2c3d4e5f60718293a4b5c6d7e8f9''"

text \<open>
  Three commits, newest first.  The first SHA has its top bit set; the second starts
  with \<open>26f5b720\<close>, the seed after which the generator yields \<open>0xFFFFFFFF\<close>.
\<close>

definition fixture_commits :: "CommitRecord list" where
  "fixture_commits =
     [fixture_commit sha_high_bit ''fix: crash on start'' 9 86400000,
      fixture_commit sha_rng_one ''feat: add parser'' 14 43200000,
      fixture_commit ''0a1b2c3d4e5f60718293a4b5c6d7e8f901234567'' ''Refactor and clean up'' 22 0]"

text \<open>An environment whose language model is unavailable and whose clock ticks once a read.\<close>

definition fixture_world :: World where
  "fixture_world =
     \<lparr> rand_draws = (\<lambda>n. 7 / 10), rand_used = 0,
       clock_reads = (\<lambda>n. 1700000000000 + int n), clock_used = 0,
       capability = (\<lambda>n sys usr. Inl (CapabilityError ''model unavailable'')), requests = 0,
       localStorage = (\<lambda>k. None),
       aiEngine = \<lparr> aiMode = ''local'', apiKey = [] \<rparr> \<rparr>"

definition fixture_repo :: Repo where
  "fixture_repo = \<lparr> owner = ''octo'', repo_name = ''demo'' \<rparr>"

text \<open>
  A state as \<open>startGame\<close> leaves it when the model answers \<open>A signal arrives.\<close>
  without choices.
\<close>

definition fixture_state :: GameState where
  "fixture_state =
     \<lparr> repo = fixture_repo, style = ''scifi'',
       commits = fixture_commits, analysis = analyzeCommits fixture_commits,
       commitIndex = 0, chapterNo = 1,
       hp = 100, maxHp = 100, xp = 0, level = 1, inventory = [], questLog = [],
       history = [],
       currentScene = Some \<lparr> narrative = ''A signal arrives.'', choices = default_choices,
                              isEpilogue = False \<rparr>,
       startedAt = 1700000000000, savedAt = None \<rparr>"

text \<open>The 3-commit game as \<open>startGame\<close> leaves it in that environment.\<close>

definition fixture_game :: "StoryEngine \<times> World" where
  "fixture_game =
     snd (startGame (new_StoryEngine, fixture_world) fixture_repo ''scifi'' fixture_commits None)"

section \<open>The commit analyzer\<close>

text \<open>The seed of an analysis, and its value on a SHA with the top bit set.\<close>

lemma analyzeCommits_hashSeed:
  "cs \<noteq> [] \<Longrightarrow> map_option hashSeed (analyzeCommits cs) = Some (hashSeed_of cs)"
  by (simp add: analyzeCommits_def Let_def)

lemma parseInt16_high_bit: "parseInt16 (take 8 sha_high_bit) = Some 4294967295"
  by (simp add: sha_high_bit_def parseInt16_def strip_0x_def hex_val_def is_space_def)

lemma hashSeed_high_bit: "hashSeed_of [fixture_commit sha_high_bit s h t] = - 1"
  by (simp add: hashSeed_of_def fixture_commit_def parseInt16_high_bit xor_parsed_def
      js_xor_def ToInt32_def)

text \<open>
  Every quantity \<open>analyzeCommits\<close> computes is a function of the five fields in
  \<open>analysis_view\<close>: each is rewritten over the list of one field.
\<close>

lemma view_fields:
  assumes "map analysis_view cs' = map analysis_view cs"
  shows "map sha cs' = map sha cs"
    and "map (\<lambda>c. name (author c)) cs' = map (\<lambda>c. name (author c)) cs"
    and "map hour cs' = map hour cs"
    and "map subject cs' = map subject cs"
    and "map timestamp cs' = map timestamp cs"
proof -
  have "map (f \<circ> analysis_view) cs' = map (f \<circ> analysis_view) cs" for f :: "string \<times> string \<times> nat \<times> string \<times> int \<Rightarrow> 'b"
    using assms by (metis map_map)
  note m = this
  show "map sha cs' = map sha cs"
    using m [of fst] by (simp add: comp_def analysis_view_def)
  show "map (\<lambda>c. name (author c)) cs' = map (\<lambda>c. name (author c)) cs"
    using m [of "\<lambda>v. fst (snd v)"] by (simp add: comp_def analysis_view_def)
  show "map hour cs' = map hour cs"
    using m [of "\<lambda>v. fst (snd (snd v))"] by (simp add: comp_def analysis_view_def)
  show "map subject cs' = map subject cs"
    using m [of "\<lambda>v. fst (snd (snd (snd v)))"] by (simp add: comp_def analysis_view_def)
  show "map timestamp cs' = map timestamp cs"
    using m [of "\<lambda>v. snd (snd (snd (snd v)))"] by (simp add: comp_def analysis_view_def)
qed

lemma hourCounts_map: "hourCounts cs = foldl (\<lambda>hc h. hc[h := hc ! h + 1]) (replicate 24 0) (map hour cs)"
  by (simp add: hourCounts_def foldl_map)

lemma late_hour_map: "list_ex (\<lambda>c. 24 \<le> hour c) cs = list_ex (\<lambda>h. 24 \<le> h) (map hour cs)"
  by (induction cs) simp_all

lemma count_matching_map:
  "count_matching pat cs = length (filter (test_any_i pat) (map subject cs))"
  by (simp add: count_matching_def filter_map comp_def)

lemma subject_sum_map:
  "foldl (\<lambda>s c. s + length (subject c)) 0 cs = foldl (\<lambda>s x. s + length x) (0::nat) (map subject cs)"
  by (simp add: foldl_map)

lemma hashSeed_of_map:
  "hashSeed_of cs = foldl (\<lambda>acc h. xor_parsed acc (parseInt16 (take 8 h))) 0 (take 5 (map sha cs))"
  by (simp add: hashSeed_of_def foldl_map take_map)

lemma ends_map:
  "cs \<noteq> [] \<Longrightarrow> timestamp (last cs) = last (map timestamp cs) \<and> timestamp (hd cs) = hd (map timestamp cs)"
  by (simp add: last_map hd_map)

lemma analyzeCommits_depends_on_view:
  assumes "map analysis_view cs' = map analysis_view cs"
  shows "analyzeCommits cs' = analyzeCommits cs"
proof (cases "cs = []")
  case True
  with assms show ?thesis by simp
next
  case False
  with assms have ne: "cs' \<noteq> []" by auto
  have len: "length cs' = length cs"
    using assms by (metis length_map)
  note f = view_fields [OF assms]
  have 1: "peakHour_of cs' = peakHour_of cs"
    unfolding peakHour_of_def by (simp only: hourCounts_map late_hour_map f)
  have 2: "count_matching p cs' = count_matching p cs" for p
    by (simp only: count_matching_map f)
  have 3: "foldl (\<lambda>s c. s + length (subject c)) 0 cs' = foldl (\<lambda>s c. s + length (subject c)) 0 cs"
    by (simp only: subject_sum_map f)
  have 4: "hashSeed_of cs' = hashSeed_of cs"
    by (simp only: hashSeed_of_map f)
  have 5: "timestamp (last cs') = timestamp (last cs)" "timestamp (hd cs') = timestamp (hd cs)"
    using ends_map [OF False] ends_map [OF ne] by (simp_all only: f)
  show ?thesis
    using False ne by (simp add: analyzeCommits_def Let_def len f 1 2 3 4 5)
qed

text \<open>
  C1.  \<open>analyzeCommits\<close> is a pure function of the commit sequence: it reads no clock,
  no random source and no storage, and leaves its argument alone, so its model takes the
  sequence and nothing else.  On a non-empty sequence it returns an analysis, and a second
  call on a sequence with the same SHAs, author names, hours, subjects and timestamps (an
  identical sequence in particular) returns the same analysis, with the same \<open>hashSeed\<close>
  and the same \<open>music\<close> parameters.
\<close>

theorem analyzeCommits_deterministic:
  assumes "cs \<noteq> []" and "map analysis_view cs' = map analysis_view cs"
  shows "\<exists>a. analyzeCommits cs = Some a \<and> analyzeCommits cs' = Some a
           \<and> hashSeed a = hashSeed_of cs \<and> totalCommits a = length cs"
proof -
  have "analyzeCommits cs' = analyzeCommits cs"
    using assms(2) by (rule analyzeCommits_depends_on_view)
  moreover obtain a where "analyzeCommits cs = Some a"
    using assms(1) by (simp add: analyzeCommits_def Let_def)
  moreover from this have "hashSeed a = hashSeed_of cs \<and> totalCommits a = length cs"
    using assms(1) by (auto simp add: analyzeCommits_def Let_def)
  ultimately show ?thesis
    by simp
qed

theorem analyzeCommits_deterministic_witness:
  "\<exists>a. analyzeCommits [fixture_commit sha_high_bit ''fix: parser'' 9 0] = Some a
       \<and> analyzeCommits [(fixture_commit sha_high_bit ''fix: parser'' 9 0)\<lparr>body := ''again''\<rparr>] = Some a
       \<and> hashSeed a = - 1 \<and> totalCommits a = 1"
  using analyzeCommits_deterministic
    [of "[fixture_commit sha_high_bit ''fix: parser'' 9 0]"
        "[(fixture_commit sha_high_bit ''fix: parser'' 9 0)\<lparr>body := ''again''\<rparr>]"]
  by (simp add: analysis_view_def hashSeed_high_bit)

section \<open>The seeded generator\<close>

text \<open>
  The double arithmetic of \<open>next\<close> is exact, the seed stays a 32-bit value, and the
  result lies in the closed interval \<open>[0, 1]\<close>, reaching 1 at one seed.
\<close>

lemma rng_next_exact: "seed r < 2 ^ 32 \<Longrightarrow> seed r * 1664525 + 1013904223 < 2 ^ 53"
  by simp

lemma rng_next_seed_bound: "seed (snd (rng_next r)) < 2 ^ 32"
  by (simp add: rng_next_def Let_def)

lemma rng_next_range: "0 \<le> fst (rng_next r) \<and> fst (rng_next r) \<le> 1"
proof -
  have "(seed r * 1664525 + 1013904223) mod 2 ^ 32 < (2 ^ 32 :: nat)"
    by simp
  then have "(seed r * 1664525 + 1013904223) mod 2 ^ 32 \<le> (4294967295 :: nat)"
    by simp
  then have "rat_of_nat ((seed r * 1664525 + 1013904223) mod 2 ^ 32) \<le> rat_of_nat 4294967295"
    by (simp only: of_nat_le_iff)
  then show ?thesis
    by (simp add: rng_next_def Let_def)
qed

lemma rng_next_one_iff: "fst (rng_next r) = 1 \<longleftrightarrow> seed (snd (rng_next r)) = 4294967295"
proof -
  have "rat_of_nat n / 4294967295 = 1 \<longleftrightarrow> n = 4294967295" for n :: nat
  proof -
    have "rat_of_nat n / 4294967295 = 1 \<longleftrightarrow> rat_of_nat n = rat_of_nat 4294967295"
      by simp
    also have "\<dots> \<longleftrightarrow> n = 4294967295"
      by (simp only: of_nat_eq_iff)
    finally show ?thesis .
  qed
  then show ?thesis
    by (simp add: rng_next_def Let_def)
qed

lemma parseInt16_rng_one: "parseInt16 (take 8 sha_rng_one) = Some 0x26F5B720"
  by (simp add: sha_rng_one_def parseInt16_def strip_0x_def hex_val_def is_space_def)

lemma hashSeed_rng_one: "hashSeed_of [fixture_commit sha_rng_one s h t] = 0x26F5B720"
  by (simp add: hashSeed_of_def fixture_commit_def parseInt16_rng_one xor_parsed_def
      js_xor_def ToInt32_def)

text \<open>
  C10.  The claim is that \<open>next()\<close> is at least 0 and strictly below 1 for every seed.
  The code divides the new seed by \<open>0xFFFFFFFF\<close>, so the seed \<open>0x26F5B720\<close>, whose
  successor is \<open>0xFFFFFFFF\<close>, makes \<open>next()\<close> return exactly 1; \<open>pick\<close> then reads
  one past the end of its array and yields \<open>undefined\<close>.  A repository whose only commit
  has a SHA starting with \<open>26f5b720\<close> gives this seed, and \<open>init\<close> picks no scale.
\<close>

theorem rng_next_returns_one:
  "fst (rng_next (new_SeededRNG 0x26F5B720)) = 1
   \<and> rng_outputs (new_SeededRNG 0x26F5B720) 1 = [1]
   \<and> fst (rng_pick (new_SeededRNG 0x26F5B720) [''major'', ''minor'', ''dorian'']) = None
   \<and> map_option (init_scaleName ''dnd'')
         (analyzeCommits [fixture_commit sha_rng_one ''Initial commit'' 9 0]) = Some None"
proof -
  let ?cs = "[fixture_commit sha_rng_one ''Initial commit'' 9 0]"
  have "map_option hashSeed (analyzeCommits ?cs) = Some 0x26F5B720"
    using analyzeCommits_hashSeed [of ?cs] by (simp add: hashSeed_rng_one)
  then obtain a where a: "analyzeCommits ?cs = Some a" "hashSeed a = 0x26F5B720"
    by (cases "analyzeCommits ?cs") auto
  have "init_scaleName ''dnd'' a = None"
    by (simp add: init_scaleName_def a scalePreference_def rng_pick_def rng_nextInt_def
        rng_next_def new_SeededRNG_def js_index_def)
  then show ?thesis
    using a by (simp add: rng_pick_def rng_nextInt_def rng_next_def new_SeededRNG_def js_index_def)
qed

section \<open>The root of the key\<close>

text \<open>The index \<open>hashSeed % 12\<close> lies in \<open>-11 .. 11\<close>; it names a root when the seed is not negative.\<close>

lemma js_rem_12_range: "- 11 \<le> js_rem a 12 \<and> js_rem a 12 \<le> 11"
proof -
  have "0 \<le> \<bar>a\<bar> mod 12" "\<bar>a\<bar> mod 12 < 12"
    by simp_all
  then show ?thesis
    unfolding js_rem_def by (cases "a < 0"; cases "a = 0") auto
qed

lemma init_root_defined: "0 \<le> hashSeed a \<Longrightarrow> init_root a \<noteq> None"
proof -
  assume h: "0 \<le> hashSeed a"
  have "0 \<le> \<bar>hashSeed a\<bar> mod 12" "\<bar>hashSeed a\<bar> mod 12 < 12"
    by simp_all
  with h have "0 \<le> js_rem (hashSeed a) 12 \<and> js_rem (hashSeed a) 12 < 12"
    unfolding js_rem_def by (cases "hashSeed a = 0") auto
  then show ?thesis
    by (simp add: init_root_def rootIdx_def js_index_def ROOTS_def)
qed

text \<open>
  C9.  The claim is that \<open>hashSeed mod 12\<close> always indexes the 12 roots.  The fold uses
  \<open>^\<close>, whose result is a signed 32-bit integer, and \<open>%\<close> keeps the sign of the
  seed: for one commit whose SHA starts with \<open>ffffffff\<close> the seed is \<open>-1\<close>, the index
  is \<open>-1\<close> and \<open>ROOTS[-1]\<close> is \<open>undefined\<close>.
\<close>

theorem negative_hashSeed_has_no_root:
  "map_option hashSeed (analyzeCommits [fixture_commit sha_high_bit ''Initial commit'' 9 0]) = Some (- 1)
   \<and> map_option rootIdx (analyzeCommits [fixture_commit sha_high_bit ''Initial commit'' 9 0]) = Some (- 1)
   \<and> map_option init_root (analyzeCommits [fixture_commit sha_high_bit ''Initial commit'' 9 0]) = Some None"
proof -
  let ?cs = "[fixture_commit sha_high_bit ''Initial commit'' 9 0]"
  have "map_option hashSeed (analyzeCommits ?cs) = Some (- 1)"
    using analyzeCommits_hashSeed [of ?cs] by (simp add: hashSeed_high_bit)
  then obtain a where a: "analyzeCommits ?cs = Some a" "hashSeed a = - 1"
    by (cases "analyzeCommits ?cs") auto
  then show ?thesis
    by (simp add: rootIdx_def init_root_def js_rem_def js_index_def)
qed

section \<open>Rejected choices\<close>

text \<open>
  A \<open>makeChoice\<close> call made while a scene generation is in flight, or with no game
  state, or with no current scene, or whose selection reads \<open>undefined\<close> from the
  choices of the current scene, returns at a guard: the engine with its whole GameState and
  the environment come back unchanged, so no scene request is issued, nothing is drawn and
  nothing is saved.
\<close>

lemma makeChoice_guarded:
  assumes "generating e \<or> state e = None
           \<or> (\<exists>s. state e = Some s \<and> currentScene s = None)
           \<or> (\<exists>s sc. state e = Some s \<and> currentScene s = Some sc
                 \<and> choices_at (choices sc) i = None)"
  shows "makeChoice (e, w) i = (None, e, w)
         \<and> requests (snd (snd (makeChoice (e, w) i))) = requests w"
  using assms by (auto simp add: makeChoice_def split: option.splits)

lemma makeChoice_guarded_fixture:
  "makeChoice (\<lparr> state = Some fixture_state, generating = True \<rparr>, fixture_world) (Index 1)
     = (None, \<lparr> state = Some fixture_state, generating = True \<rparr>, fixture_world)
   \<and> makeChoice (\<lparr> state = Some fixture_state, generating = False \<rparr>, fixture_world) (Index 3)
     = (None, \<lparr> state = Some fixture_state, generating = False \<rparr>, fixture_world)"
  using makeChoice_guarded [of "\<lparr> state = Some fixture_state, generating = True \<rparr>"
      "Index 1" fixture_world]
    makeChoice_guarded [of "\<lparr> state = Some fixture_state, generating = False \<rparr>"
      "Index 3" fixture_world]
  by (simp add: fixture_state_def default_choices_def choices_at_def js_index_def)

lemma makeChoice_rejected:
  "\<not> accepted e i \<Longrightarrow> makeChoice (e, w) i = (None, e, w)"
  by (auto simp add: accepted_def makeChoice_def split: option.splits)

text \<open>
  An index selects a choice exactly when it lies in the array; the first button of a scene
  with choices is always accepted.
\<close>

lemma choices_at_Index:
  "choices_at cs (Index i) = map_option ChoiceObj (js_index cs i)"
  by (simp add: choices_at_def)

lemma accepted_first:
  assumes "state e = Some s" "\<not> generating e" "currentScene s = Some sc" "choices sc \<noteq> []"
  shows "accepted e (Index 0)"
  using assms by (simp add: accepted_def choices_at_Index js_index_def)

text \<open>
  A typed text passes the guard when it names a property of the array: \<open>length\<close> on a
  scene with choices, or an inherited method.  A sentence does not.
\<close>

lemma choices_at_length:
  "cs \<noteq> [] \<Longrightarrow> choices_at cs (Text ''length'') = Some OtherValue"
  by (simp add: choices_at_def canonical_index_def is_digit_def)

lemma choices_at_inherited:
  "choices_at cs (Text ''push'') = Some OtherValue" "choices_at cs (Text ''find'') = Some OtherValue"
  by (simp_all add: choices_at_def canonical_index_def is_digit_def inherited_properties_def)

lemma choices_at_other_text:
  "choices_at cs (Text ''Open the door'') = None"
  by (simp add: choices_at_def canonical_index_def is_digit_def inherited_properties_def)

section \<open>Save and load\<close>

text \<open>
  \<open>saveGame\<close> reads the clock twice: once for the live state, once for the stored
  copy.  Loading returns the stored copy.
\<close>

lemma loadGame_saveGame:
  "state e = Some s \<Longrightarrow>
   loadGame (saveGame (e, w) slot) slot =
     Inr (e\<lparr>state := Some (s\<lparr>commits := map toJSON_commit (commits s),
                               savedAt := Some (clock_reads w (Suc (clock_used w)))\<rparr>)\<rparr>)"
  by (simp add: loadGame_def saveGame_def storage_saveGame_def storage_loadGame_def Date_now_def
      JSON_stringify_def JSON_parse_def Let_def)

lemma saveGame_shape:
  assumes "state e = Some s"
  shows "fst (saveGame (e, w) slot) = e\<lparr>state := Some (s\<lparr>savedAt := Some (clock_reads w (clock_used w))\<rparr>)\<rparr>"
    and "rand_draws (snd (saveGame (e, w) slot)) = rand_draws w"
  using assms by (simp_all add: saveGame_def storage_saveGame_def Date_now_def Let_def)

lemma toJSON_commit_keeps: "(toJSON_commit c)\<lparr>date := date c\<rparr> = c"
  by (simp add: toJSON_commit_def)

text \<open>
  C2, as the code has it.  Saving a GameState to a slot and loading that slot succeeds and
  replaces the live state wholesale by the saved one.  The loaded state equals the saved
  one in every field, \<open>commitIndex\<close>, the player stats, \<open>history\<close> and the analysis
  included (the analysis is the stored one, not recomputed), except for \<open>savedAt\<close>, which
  is the time \<open>storage.saveGame\<close> read, and for the \<open>date\<close> of each commit, which comes
  back in its JSON form.
\<close>

theorem save_load_roundtrip:
  assumes "state e = Some s"
  shows "\<exists>s'. loadGame (saveGame (e, w) slot) slot = Inr (e\<lparr>state := Some s'\<rparr>)
           \<and> s' = s\<lparr>commits := map toJSON_commit (commits s),
                     savedAt := Some (clock_reads w (Suc (clock_used w)))\<rparr>
           \<and> commitIndex s' = commitIndex s \<and> hp s' = hp s \<and> maxHp s' = maxHp s
           \<and> xp s' = xp s \<and> level s' = level s \<and> inventory s' = inventory s
           \<and> history s' = history s \<and> analysis s' = analysis s
           \<and> map (\<lambda>c. c\<lparr>date := DateString 0\<rparr>) (commits s')
               = map (\<lambda>c. c\<lparr>date := DateString 0\<rparr>) (commits s)"
  using loadGame_saveGame [OF assms, of w slot] by (simp add: toJSON_commit_def comp_def)

theorem save_load_roundtrip_witness:
  "\<exists>s'. loadGame (saveGame (\<lparr> state = Some fixture_state, generating = False \<rparr>, fixture_world)
                    ''slot1'') ''slot1''
           = Inr \<lparr> state = Some s', generating = False \<rparr>
         \<and> savedAt s' = Some 1700000000001 \<and> commitIndex s' = 0 \<and> hp s' = 100
         \<and> analysis s' = analyzeCommits fixture_commits"
  using save_load_roundtrip
    [of "\<lparr> state = Some fixture_state, generating = False \<rparr>" fixture_state fixture_world "''slot1''"]
  by (simp add: fixture_state_def fixture_world_def)

text \<open>
  The claim as stated, identity under deep equality, fails: a state that was never saved
  has \<open>savedAt = null\<close> and comes back with a time stamp.
\<close>

theorem save_load_not_identical:
  "loadGame (saveGame (\<lparr> state = Some fixture_state, generating = False \<rparr>, fixture_world)
               ''slot1'') ''slot1''
     \<noteq> Inr \<lparr> state = Some fixture_state, generating = False \<rparr>
   \<and> loadGame (saveGame (\<lparr> state = Some fixture_state, generating = False \<rparr>, fixture_world)
               ''slot1'') ''slot1''
     \<noteq> Inr (fst (saveGame (\<lparr> state = Some fixture_state, generating = False \<rparr>, fixture_world)
                    ''slot1''))
   \<and> map_option savedAt (state (projr (loadGame
         (saveGame (\<lparr> state = Some fixture_state, generating = False \<rparr>, fixture_world)
            ''slot1'') ''slot1'')))
     = Some (Some 1700000000001)
   \<and> map_option (map date \<circ> commits) (state (projr (loadGame
         (saveGame (\<lparr> state = Some fixture_state, generating = False \<rparr>, fixture_world)
            ''slot1'') ''slot1'')))
     = Some [DateString 86400000, DateString 43200000, DateString 0]"
proof -
  let ?e = "\<lparr> state = Some fixture_state, generating = False \<rparr>"
  let ?s' = "fixture_state\<lparr>commits := map toJSON_commit (commits fixture_state),
                savedAt := Some (clock_reads fixture_world (Suc (clock_used fixture_world)))\<rparr>"
  have l: "loadGame (saveGame (?e, fixture_world) ''slot1'') ''slot1'' = Inr (?e\<lparr>state := Some ?s'\<rparr>)"
    by (rule loadGame_saveGame) simp
  have sv: "savedAt ?s' = Some 1700000000001"
    by (simp add: fixture_world_def)
  have dt: "map date (commits ?s') = [DateString 86400000, DateString 43200000, DateString 0]"
    by (simp add: fixture_state_def fixture_commits_def fixture_commit_def toJSON_commit_def)
  have n1: "?s' \<noteq> fixture_state"
  proof
    assume "?s' = fixture_state"
    then have "savedAt ?s' = savedAt fixture_state"
      by (rule arg_cong)
    then show False
      using sv by (simp add: fixture_state_def)
  qed
  have live: "fst (saveGame (?e, fixture_world) ''slot1'')
      = ?e\<lparr>state := Some (fixture_state\<lparr>savedAt := Some (clock_reads fixture_world (clock_used fixture_world))\<rparr>)\<rparr>"
    by (rule saveGame_shape) simp
  have n2: "?s' \<noteq> fixture_state\<lparr>savedAt := Some (clock_reads fixture_world (clock_used fixture_world))\<rparr>"
  proof
    assume "?s' = fixture_state\<lparr>savedAt := Some (clock_reads fixture_world (clock_used fixture_world))\<rparr>"
    then have "savedAt ?s'
        = savedAt (fixture_state\<lparr>savedAt := Some (clock_reads fixture_world (clock_used fixture_world))\<rparr>)"
      by (rule arg_cong)
    then show False
      by (simp add: fixture_world_def)
  qed
  show ?thesis
    using n1 n2 sv dt by (simp add: l live)
qed

section \<open>Scene generation\<close>

text \<open>
  The fallback scene of a commit: one of three non-empty templates and the three choices
  of the style.  With a model that always fails, both branches of \<open>generateScene\<close>
  fail, and \<open>generateNextScene\<close> takes the fallback.
\<close>

lemma by_style_cases: "by_style st a b c = a \<or> by_style st a b c = b \<or> by_style st a b c = c"
  by (simp add: by_style_def)

lemma length_choiceSets: "length (choiceSets st) = 3"
  using by_style_cases [of st] by (auto simp add: choiceSets_def by_style_def)

lemma mod3_cases: "(i::nat) mod 3 = 0 \<or> i mod 3 = 1 \<or> i mod 3 = 2"
  by arith

lemma nth3: "k = 0 \<or> k = 1 \<or> k = (2::nat) \<Longrightarrow> a \<noteq> [] \<Longrightarrow> b \<noteq> [] \<Longrightarrow> c \<noteq> [] \<Longrightarrow> [a, b, c] ! k \<noteq> ([] :: string)"
  by auto

lemma templates_dnd_nonempty: "templates_dnd c i n ! (i mod 3) \<noteq> []"
  unfolding templates_dnd_def by (rule nth3 [OF mod3_cases]) simp_all

lemma templates_scifi_nonempty: "templates_scifi c i n r ! (i mod 3) \<noteq> []"
  unfolding templates_scifi_def by (rule nth3 [OF mod3_cases]) simp_all

lemma templates_horror_nonempty: "templates_horror c ! (i mod 3) \<noteq> []"
  unfolding templates_horror_def by (rule nth3 [OF mod3_cases]) simp_all

lemma templates_length:
  "length (templates_dnd c i n) = 3" "length (templates_scifi c i n r) = 3" "length (templates_horror c) = 3"
  by (simp_all add: templates_dnd_def templates_scifi_def templates_horror_def)


lemma by_style_P: "P a \<Longrightarrow> P b \<Longrightarrow> P c \<Longrightarrow> P (by_style st a b c)"
  by (simp add: by_style_def)

lemma generateFallbackScene_Some:
  "\<exists>sc. generateFallbackScene w (Some c) st i n = (Inr sc, w\<lparr>rand_used := Suc (rand_used w)\<rparr>)
        \<and> narrative sc \<noteq> [] \<and> choices sc = choiceSets st \<and> \<not> isEpilogue sc"
proof -
  let ?pool = "by_style st (templates_dnd c i n) (templates_scifi c i n (rand_draws w (rand_used w)))
                 (templates_horror c)"
  have "length ?pool = 3 \<and> ?pool ! (i mod 3) \<noteq> []"
    by (rule by_style_P) (simp_all add: templates_length templates_dnd_nonempty
        templates_scifi_nonempty templates_horror_nonempty)
  then show ?thesis
    by (simp add: generateFallbackScene_def Math_random_def)
qed

lemma generateFallbackScene_None:
  "\<exists>err. generateFallbackScene w None st i n = (Inl err, w)"
  by (simp add: generateFallbackScene_def)


lemma complete_fails:
  assumes "\<forall>n sys usr. \<exists>err. capability w n sys usr = Inl err"
  shows "\<exists>err. complete w sys usr = (Inl err, w\<lparr>requests := Suc (requests w)\<rparr>)"
proof -
  obtain err where "capability w (requests w) sys usr = Inl err"
    using assms by blast
  then show ?thesis
    by (simp add: complete_def)
qed

lemma generateViaAPI_fails:
  assumes "\<forall>n sys usr. \<exists>err. capability w n sys usr = Inl err"
  shows "\<exists>err. generateViaAPI w sys usr = (Inl err, w\<lparr>requests := Suc (requests w)\<rparr>)"
proof -
  obtain err where "complete w sys usr = (Inl err, w\<lparr>requests := Suc (requests w)\<rparr>)"
    using complete_fails [OF assms] by blast
  then show ?thesis
    by (simp add: generateViaAPI_def)
qed

lemma generateViaLocal_fails:
  assumes "\<forall>n sys usr. \<exists>err. capability w n sys usr = Inl err"
  shows "\<exists>err. generateViaLocal w sys usr = (Inl err, w\<lparr>requests := Suc (requests w)\<rparr>)"
proof -
  obtain err where "complete w sys usr = (Inl err, w\<lparr>requests := Suc (requests w)\<rparr>)"
    using complete_fails [OF assms] by blast
  then show ?thesis
    by (simp add: generateViaLocal_def generateFallbackScene_def)
qed

lemma generateScene_fails:
  assumes "\<forall>n sys usr. \<exists>err. capability w n sys usr = Inl err" and "cs \<noteq> []"
  shows "\<exists>err. generateScene w cs i st h x items pc = (Inl err, w\<lparr>requests := Suc (requests w)\<rparr>)"
proof -
  have "js_index cs 0 = Some (cs ! 0)"
    using assms(2) by (simp add: js_index_def)
  then obtain c where c: "or_else (js_index cs i) (js_index cs 0) = Some c"
    by (cases "js_index cs i") (simp_all add: or_else_def)
  obtain e1 where e1: "generateViaAPI w (SYSTEM_PROMPTS st)
        (buildUserPrompt c (js_index cs (i - 1)) st h x items pc i (length cs))
      = (Inl e1, w\<lparr>requests := Suc (requests w)\<rparr>)"
    using generateViaAPI_fails [OF assms(1)] by blast
  obtain e2 where e2: "generateViaLocal w (SYSTEM_PROMPTS st)
        (buildUserPrompt c (js_index cs (i - 1)) st h x items pc i (length cs))
      = (Inl e2, w\<lparr>requests := Suc (requests w)\<rparr>)"
    using generateViaLocal_fails [OF assms(1)] by blast
  show ?thesis
    by (simp add: generateScene_def Let_def c e1 e2)
qed

lemma generateNextScene_fallback:
  assumes cap: "\<forall>n sys usr. \<exists>err. capability w n sys usr = Inl err"
    and e: "state e = Some s" "\<not> generating e"
    and s: "0 \<le> commitIndex s" "commitIndex s < int (length (commits s))"
  shows "\<exists>sc. generateNextScene (e, w) pc
                 = (None, \<lparr> state = Some (s\<lparr>currentScene := Some sc\<rparr>), generating = False \<rparr>,
                    w\<lparr>requests := Suc (requests w), rand_used := Suc (rand_used w)\<rparr>)
              \<and> narrative sc \<noteq> [] \<and> choices sc = choiceSets (style s) \<and> \<not> isEpilogue sc"
proof -
  let ?w1 = "w\<lparr>requests := Suc (requests w)\<rparr>"
  from s have ne: "commits s \<noteq> []"
    by auto
  obtain err where g: "generateScene w (commits s) (commitIndex s) (style s) (hp s) (xp s)
                         (inventory s) pc = (Inl err, ?w1)"
    using generateScene_fails [OF cap ne] by blast
  have ix: "js_index (commits s) (commitIndex s) = Some (commits s ! nat (commitIndex s))"
    using s by (simp add: js_index_def)
  obtain sc where f: "generateFallbackScene ?w1 (Some (commits s ! nat (commitIndex s))) (style s)
                        (nat (commitIndex s)) (length (commits s))
                      = (Inr sc, ?w1\<lparr>rand_used := Suc (rand_used ?w1)\<rparr>)"
    and sc: "narrative sc \<noteq> []" "choices sc = choiceSets (style s)" "\<not> isEpilogue sc"
    using generateFallbackScene_Some by blast
  have "generateNextScene (e, w) pc
          = (None, \<lparr> state = Some (s\<lparr>currentScene := Some sc\<rparr>), generating = False \<rparr>,
             w\<lparr>requests := Suc (requests w), rand_used := Suc (rand_used w)\<rparr>)"
    using e g ix f by (simp add: generateNextScene_def)
  with sc show ?thesis
    by blast
qed

text \<open>
  For each of the three styles and a game on a non-empty commit list whose cursor is
  inside the list: when the language model fails on every request, in local and in API
  mode alike, \<open>generateNextScene\<close> lets no exception escape and leaves a scene with a
  non-empty narrative and exactly 3 choices as the current scene.  The deterministic
  fallback, when it is given a commit, does not throw and has the same shape.
\<close>

lemma scene_when_ai_always_throws:
  assumes "\<forall>n sys usr. \<exists>err. capability w n sys usr = Inl err"
    and "style s \<in> set styles"
    and "commits s \<noteq> []" and "0 \<le> commitIndex s" and "commitIndex s < int (length (commits s))"
    and "state e = Some s" and "\<not> generating e"
  shows "\<exists>sc w' fb w''.
           generateNextScene (e, w) pc
             = (None, \<lparr> state = Some (s\<lparr>currentScene := Some sc\<rparr>), generating = False \<rparr>, w')
           \<and> narrative sc \<noteq> [] \<and> length (choices sc) = 3
           \<and> generateFallbackScene w (Some c) (style s) i n = (Inr fb, w'')
           \<and> narrative fb \<noteq> [] \<and> length (choices fb) = 3"
proof -
  obtain sc where "generateNextScene (e, w) pc
      = (None, \<lparr> state = Some (s\<lparr>currentScene := Some sc\<rparr>), generating = False \<rparr>,
         w\<lparr>requests := Suc (requests w), rand_used := Suc (rand_used w)\<rparr>)"
    and "narrative sc \<noteq> []" and "choices sc = choiceSets (style s)"
    using generateNextScene_fallback [OF assms(1) assms(6) assms(7) assms(4) assms(5)] by blast
  moreover obtain fb where "generateFallbackScene w (Some c) (style s) i n
      = (Inr fb, w\<lparr>rand_used := Suc (rand_used w)\<rparr>)"
    and "narrative fb \<noteq> []" and "choices fb = choiceSets (style s)"
    using generateFallbackScene_Some by blast
  ultimately show ?thesis
    by (intro exI [of _ sc] exI [of _ fb] exI) (simp add: length_choiceSets)
qed

lemma scene_when_ai_always_throws_fixture:
  "\<exists>sc w' fb w''.
     generateNextScene (\<lparr> state = Some fixture_state, generating = False \<rparr>, fixture_world) None
       = (None, \<lparr> state = Some (fixture_state\<lparr>currentScene := Some sc\<rparr>), generating = False \<rparr>, w')
     \<and> narrative sc \<noteq> [] \<and> length (choices sc) = 3
     \<and> generateFallbackScene fixture_world (Some (fixture_commits ! 1)) ''scifi'' 1 3 = (Inr fb, w'')
     \<and> narrative fb \<noteq> [] \<and> length (choices fb) = 3"
proof -
  have "\<forall>n sys usr. \<exists>err. capability fixture_world n sys usr = Inl err"
    by (simp add: fixture_world_def)
  moreover have "style fixture_state \<in> set styles" "commits fixture_state \<noteq> []"
    "0 \<le> commitIndex fixture_state"
    "commitIndex fixture_state < int (length (commits fixture_state))"
    by (simp_all add: fixture_state_def fixture_commits_def styles_def)
  moreover have "state \<lparr> state = Some fixture_state, generating = False \<rparr> = Some fixture_state"
    "\<not> generating \<lparr> state = Some fixture_state, generating = False \<rparr>"
    by simp_all
  moreover have "style fixture_state = ''scifi''"
    by (simp add: fixture_state_def)
  ultimately show ?thesis
    using scene_when_ai_always_throws
      [of fixture_world fixture_state "\<lparr> state = Some fixture_state, generating = False \<rparr>"
          None "fixture_commits ! 1" 1 3]
    by simp
qed

text \<open>
  C3.  The fallback producer throws where \<open>generateViaLocal\<close> calls it.  When the local
  model fails, the catch of \<open>generateViaLocal\<close> calls
  \<open>generateFallbackScene(...arguments)\<close>, that is, with the system prompt and the user
  prompt.  The destructured \<open>commit\<close> is \<open>undefined\<close>, so the fallback throws a
  TypeError at \<open>commit.subject\<close>, whatever the prompts and the rest of the environment
  are, and \<open>aiEngine.generateScene\<close> in local mode returns no scene but this error.  The
  game gets its scene only from the second catch, the one in \<open>generateNextScene\<close>.
\<close>

theorem fallback_throws_inside_generateViaLocal:
  "fst (generateViaLocal (w\<lparr>capability := (\<lambda>n sys usr. Inl err)\<rparr>) systemPrompt userPrompt)
     = Inl (TypeError ''Cannot read properties of undefined (reading 'subject')'')
   \<and> fst (generateScene fixture_world fixture_commits 0 ''scifi'' 100 0 [] None)
     = Inl (TypeError ''Cannot read properties of undefined (reading 'subject')'')"
proof -
  have "js_index fixture_commits 0 = Some (fixture_commits ! 0)"
    by (simp add: js_index_def fixture_commits_def)
  then have c: "or_else (js_index fixture_commits 0) (js_index fixture_commits 0) = Some (fixture_commits ! 0)"
    by (simp add: or_else_def)
  have l: "fst (generateViaLocal fixture_world sys usr)
      = Inl (TypeError ''Cannot read properties of undefined (reading 'subject')'')" for sys usr
    by (simp add: generateViaLocal_def complete_def generateFallbackScene_def fixture_world_def)
  have "aiMode (aiEngine fixture_world) = ''local''"
    by (simp add: fixture_world_def)
  then have "fst (generateScene fixture_world fixture_commits 0 ''scifi'' 100 0 [] None)
      = Inl (TypeError ''Cannot read properties of undefined (reading 'subject')'')"
    by (simp add: generateScene_def Let_def c l)
  moreover have "fst (generateViaLocal (w\<lparr>capability := (\<lambda>n sys usr. Inl err)\<rparr>) systemPrompt userPrompt)
     = Inl (TypeError ''Cannot read properties of undefined (reading 'subject')'')"
    by (simp add: generateViaLocal_def complete_def generateFallbackScene_def)
  ultimately show ?thesis
    by simp
qed

section \<open>Turns\<close>

text \<open>
  Each block of \<open>applyChoiceConsequences\<close> changes few fields; the lemmas below say
  which ones it leaves alone, and then what the whole function does to each statistic.
\<close>

lemma addQuestEntry_frame:
  "hp (addQuestEntry s t) = hp s" "maxHp (addQuestEntry s t) = maxHp s"
  "xp (addQuestEntry s t) = xp s" "level (addQuestEntry s t) = level s"
  "inventory (addQuestEntry s t) = inventory s" "commits (addQuestEntry s t) = commits s"
  "commitIndex (addQuestEntry s t) = commitIndex s" "style (addQuestEntry s t) = style s"
  "history (addQuestEntry s t) = history s" "chapterNo (addQuestEntry s t) = chapterNo s"
  by (simp_all add: addQuestEntry_def Let_def)

lemma questEntries_frame:
  "hp (questEntries m s) = hp s" "maxHp (questEntries m s) = maxHp s"
  "xp (questEntries m s) = xp s" "level (questEntries m s) = level s"
  "inventory (questEntries m s) = inventory s" "commits (questEntries m s) = commits s"
  "commitIndex (questEntries m s) = commitIndex s" "style (questEntries m s) = style s"
  "history (questEntries m s) = history s"
  by (simp_all add: questEntries_def Let_def addQuestEntry_frame)

lemma inventoryGain_frame:
  "hp (fst (inventoryGain w m s)) = hp s" "maxHp (fst (inventoryGain w m s)) = maxHp s"
  "xp (fst (inventoryGain w m s)) = xp s" "level (fst (inventoryGain w m s)) = level s"
  "commits (fst (inventoryGain w m s)) = commits s"
  "commitIndex (fst (inventoryGain w m s)) = commitIndex s" "style (fst (inventoryGain w m s)) = style s"
  "history (fst (inventoryGain w m s)) = history s"
  "rand_draws (snd (inventoryGain w m s)) = rand_draws w"
  by (simp_all add: inventoryGain_def Let_def Math_random_def split: option.splits)

lemma hpChange_frame:
  "maxHp (hpChange m i s) = maxHp s"
  "xp (hpChange m i s) = xp s" "level (hpChange m i s) = level s"
  "inventory (hpChange m i s) = inventory s" "commits (hpChange m i s) = commits s"
  "commitIndex (hpChange m i s) = commitIndex s" "style (hpChange m i s) = style s"
  "history (hpChange m i s) = history s"
  by (simp_all add: hpChange_def Let_def)

lemma levelUpCheck_frame:
  "xp (levelUpCheck s) = xp s"
  "inventory (levelUpCheck s) = inventory s" "commits (levelUpCheck s) = commits s"
  "commitIndex (levelUpCheck s) = commitIndex s" "style (levelUpCheck s) = style s"
  "history (levelUpCheck s) = history s"
  by (simp_all add: levelUpCheck_def Let_def addQuestEntry_frame)

lemma levelUpCheck_stats:
  "level (levelUpCheck s) = (if levels_up s (xp s) then level s + 1 else level s)"
  "maxHp (levelUpCheck s) = (if levels_up s (xp s) then maxHp s + 10 else maxHp s)"
  "hp (levelUpCheck s) = (if levels_up s (xp s) then min (hp s + 20) (maxHp s + 10) else hp s)"
  by (simp_all add: levelUpCheck_def levels_up_def Let_def addQuestEntry_frame)

lemma gainXp_frame:
  "hp (fst (gainXp w s)) = hp s" "maxHp (fst (gainXp w s)) = maxHp s"
  "level (fst (gainXp w s)) = level s"
  "inventory (fst (gainXp w s)) = inventory s" "commits (fst (gainXp w s)) = commits s"
  "commitIndex (fst (gainXp w s)) = commitIndex s" "style (fst (gainXp w s)) = style s"
  "history (fst (gainXp w s)) = history s"
  "xp (fst (gainXp w s)) = xp s + 20 + \<lfloor>rand_draws w (rand_used w) * 30\<rfloor>"
  "rand_draws (snd (gainXp w s)) = rand_draws w"
  by (simp_all add: gainXp_def Let_def Math_random_def)

lemma applyChoiceConsequences_unfold:
  "applyChoiceConsequences w s ch i =
     (questEntries (msg_of s)
        (fst (inventoryGain (snd (gainXp w s)) (msg_of s)
                (hpChange (msg_of s) i (levelUpCheck (fst (gainXp w s)))))),
      snd (inventoryGain (snd (gainXp w s)) (msg_of s)
                (hpChange (msg_of s) i (levelUpCheck (fst (gainXp w s))))))"
  by (simp add: applyChoiceConsequences_def Let_def split_beta msg_of_def)

lemma apply_frame:
  "commits (fst (applyChoiceConsequences w s ch i)) = commits s"
  "commitIndex (fst (applyChoiceConsequences w s ch i)) = commitIndex s"
  "style (fst (applyChoiceConsequences w s ch i)) = style s"
  "history (fst (applyChoiceConsequences w s ch i)) = history s"
  "rand_draws (snd (applyChoiceConsequences w s ch i)) = rand_draws w"
  by (simp_all add: applyChoiceConsequences_unfold questEntries_frame inventoryGain_frame
      hpChange_frame levelUpCheck_frame gainXp_frame)

lemma apply_xp:
  "xp (fst (applyChoiceConsequences w s ch i)) = xp s + 20 + \<lfloor>rand_draws w (rand_used w) * 30\<rfloor>"
  by (simp add: applyChoiceConsequences_unfold questEntries_frame inventoryGain_frame
      hpChange_frame levelUpCheck_frame gainXp_frame)

lemma levels_up_gainXp:
  "levels_up (fst (gainXp w s)) x = levels_up s x"
  by (simp add: levels_up_def gainXp_frame)

lemma apply_level:
  "level (fst (applyChoiceConsequences w s ch i)) =
     (if levels_up s (xp s + 20 + \<lfloor>rand_draws w (rand_used w) * 30\<rfloor>) then level s + 1 else level s)"
  by (simp add: applyChoiceConsequences_unfold questEntries_frame inventoryGain_frame
      hpChange_frame levelUpCheck_stats levels_up_gainXp gainXp_frame)

lemma apply_maxHp:
  "maxHp (fst (applyChoiceConsequences w s ch i)) =
     (if levels_up s (xp s + 20 + \<lfloor>rand_draws w (rand_used w) * 30\<rfloor>) then maxHp s + 10 else maxHp s)"
  by (simp add: applyChoiceConsequences_unfold questEntries_frame inventoryGain_frame
      hpChange_frame levelUpCheck_stats levels_up_gainXp gainXp_frame)

lemma apply_hp:
  "hp (fst (applyChoiceConsequences w s ch i)) =
     (let up = levels_up s (xp s + 20 + \<lfloor>rand_draws w (rand_used w) * 30\<rfloor>);
          h1 = (if up then min (hp s + 20) (maxHp s + 10) else hp s);
          m1 = (if up then maxHp s + 10 else maxHp s)
      in if test_any [''fix'', ''bug'', ''patch''] (msg_of s)
         then max 1 (min m1 (h1 + hpDelta_of i)) else h1)"
  by (simp add: applyChoiceConsequences_unfold questEntries_frame inventoryGain_frame
      hpChange_def levelUpCheck_stats levels_up_gainXp gainXp_frame Let_def hpDelta_of_def)

lemma inventoryGain_cases:
  "inventory (fst (inventoryGain w m s)) = inventory s
   \<or> (\<exists>item. inventory (fst (inventoryGain w m s)) = inventory s @ [item]
         \<and> item \<notin> set (inventory s) \<and> length (inventory s) < 8
         \<and> test_any [''feat'', ''add'', ''new''] m \<and> 3 / 5 < rand_draws w (rand_used w))"
  by (auto simp add: inventoryGain_def Let_def Math_random_def split: option.splits)

lemma gainXp_world: "snd (gainXp w s) = w\<lparr>rand_used := Suc (rand_used w)\<rparr>"
  by (simp add: gainXp_def Math_random_def)

lemma apply_inventory:
  "inventory (fst (applyChoiceConsequences w s ch i)) = inventory s
   \<or> (\<exists>item. inventory (fst (applyChoiceConsequences w s ch i)) = inventory s @ [item]
         \<and> item \<notin> set (inventory s) \<and> length (inventory s) < 8
         \<and> test_any [''feat'', ''add'', ''new''] (msg_of s)
         \<and> 3 / 5 < rand_draws w (Suc (rand_used w)))"
  using inventoryGain_cases [of "snd (gainXp w s)" "msg_of s"
      "hpChange (msg_of s) i (levelUpCheck (fst (gainXp w s)))"]
  by (simp add: applyChoiceConsequences_unfold questEntries_frame
      hpChange_frame levelUpCheck_frame gainXp_frame gainXp_world)

text \<open>
  An accepted \<open>makeChoice\<close> is \<open>resolveTurn\<close> followed by the epilogue or by the next
  scene and the automatic save.  The next scene always exists in a game in progress,
  whatever the language model does, and is never an epilogue.
\<close>

lemma makeChoice_accepted:
  assumes "state e = Some s" "\<not> generating e" "currentScene s = Some sc"
    "choices_at (choices sc) i = Some ch"
  shows "makeChoice (e, w) i =
     (if at_end (fst (resolveTurn w s sc ch i))
      then (None, e\<lparr>state := Some (generateEpilogue (fst (resolveTurn w s sc ch i)))\<rparr>,
            snd (resolveTurn w s sc ch i))
      else (case generateNextScene (e\<lparr>state := Some (fst (resolveTurn w s sc ch i))\<rparr>,
                    snd (resolveTurn w s sc ch i)) (chosen_text ch) of
              (Some err, e', w2) \<Rightarrow> (Some err, e', w2)
            | (None, e', w2) \<Rightarrow> (None, saveGame (e', w2) ''auto'')))"
  using assms by (simp add: makeChoice_def resolveTurn_def at_end_def Let_def split_beta)

lemma parseAIResponse_shape:
  "\<not> isEpilogue (parseAIResponse t) \<and> choices (parseAIResponse t) \<noteq> []"
  by (simp add: parseAIResponse_def Let_def default_choices_def)

lemma complete_world: "rand_draws (snd (complete w sys usr)) = rand_draws w"
  by (simp add: complete_def)

lemma generateViaAPI_shape:
  "rand_draws (snd (generateViaAPI w sys usr)) = rand_draws w
   \<and> (case fst (generateViaAPI w sys usr) of
         Inl err \<Rightarrow> True | Inr sc \<Rightarrow> \<not> isEpilogue sc \<and> choices sc \<noteq> [])"
  by (cases "capability w (requests w) sys usr")
    (simp_all add: generateViaAPI_def complete_def parseAIResponse_shape)

lemma generateViaLocal_shape:
  "rand_draws (snd (generateViaLocal w sys usr)) = rand_draws w
   \<and> (case fst (generateViaLocal w sys usr) of
         Inl err \<Rightarrow> True | Inr sc \<Rightarrow> \<not> isEpilogue sc \<and> choices sc \<noteq> [])"
  by (cases "capability w (requests w) sys usr")
    (simp_all add: generateViaLocal_def complete_def parseAIResponse_shape generateFallbackScene_def)

lemma generateScene_shape:
  "rand_draws (snd (generateScene w cs i st h x items pc)) = rand_draws w
   \<and> (case fst (generateScene w cs i st h x items pc) of
         Inl err \<Rightarrow> True | Inr sc \<Rightarrow> \<not> isEpilogue sc \<and> choices sc \<noteq> [])"
  using generateViaAPI_shape generateViaLocal_shape
  by (cases "or_else (js_index cs i) (js_index cs 0)") (simp_all add: generateScene_def Let_def)

lemma generateNextScene_total:
  assumes "state e = Some s" "\<not> generating e" "in_game s"
  shows "\<exists>sc w'. generateNextScene (e, w) pc
                   = (None, \<lparr> state = Some (s\<lparr>currentScene := Some sc\<rparr>), generating = False \<rparr>, w')
               \<and> \<not> isEpilogue sc \<and> choices sc \<noteq> [] \<and> rand_draws w' = rand_draws w"
proof -
  let ?g = "generateScene w (commits s) (commitIndex s) (style s) (hp s) (xp s) (inventory s) pc"
  have shape: "rand_draws (snd ?g) = rand_draws w
      \<and> (case fst ?g of Inl err \<Rightarrow> True | Inr sc \<Rightarrow> \<not> isEpilogue sc \<and> choices sc \<noteq> [])"
    by (rule generateScene_shape)
  have ix: "js_index (commits s) (commitIndex s) = Some (commits s ! nat (commitIndex s))"
    using assms(3) by (simp add: in_game_def js_index_def)
  obtain r w1 where g: "?g = (r, w1)"
    by (cases ?g)
  have w1: "rand_draws w1 = rand_draws w"
    using shape by (simp add: g)
  show ?thesis
  proof (cases r)
    case (Inr sc)
    then have "generateNextScene (e, w) pc
        = (None, \<lparr> state = Some (s\<lparr>currentScene := Some sc\<rparr>), generating = False \<rparr>, w1)"
      using assms(1,2) g by (simp add: generateNextScene_def)
    moreover have "\<not> isEpilogue sc \<and> choices sc \<noteq> []"
      using shape Inr by (simp add: g)
    ultimately show ?thesis
      using w1 by blast
  next
    case (Inl err)
    obtain sc where f: "generateFallbackScene w1 (Some (commits s ! nat (commitIndex s)))
          (style s) (nat (commitIndex s)) (length (commits s))
        = (Inr sc, w1\<lparr>rand_used := Suc (rand_used w1)\<rparr>)"
      and sc: "choices sc = choiceSets (style s)" "\<not> isEpilogue sc"
      using generateFallbackScene_Some by blast
    have "generateNextScene (e, w) pc
        = (None, \<lparr> state = Some (s\<lparr>currentScene := Some sc\<rparr>), generating = False \<rparr>,
           w1\<lparr>rand_used := Suc (rand_used w1)\<rparr>)"
      using assms(1,2) g Inl ix f by (simp add: generateNextScene_def)
    moreover have "choices sc \<noteq> []"
      using sc(1) length_choiceSets [of "style s"] by auto
    moreover have "rand_draws (w1\<lparr>rand_used := Suc (rand_used w1)\<rparr>) = rand_draws w"
      using w1 by simp
    ultimately show ?thesis
      using sc(2) by blast
  qed
qed

lemma resolveTurn_frame:
  "commits (fst (resolveTurn w s sc ch i)) = commits s"
  "style (fst (resolveTurn w s sc ch i)) = style s"
  "commitIndex (fst (resolveTurn w s sc ch i)) = min (commitIndex s + 1) (int (length (commits s)) - 1)"
  "length (history (fst (resolveTurn w s sc ch i))) = Suc (length (history s))"
  "rand_draws (snd (resolveTurn w s sc ch i)) = rand_draws w"
  by (simp_all add: resolveTurn_def Let_def split_beta apply_frame)

lemma resolveTurn_in_game: "in_game s \<Longrightarrow> in_game (fst (resolveTurn w s sc ch i))"
  by (auto simp add: in_game_def resolveTurn_frame)

lemma makeChoice_step:
  assumes e: "state e = Some s" "\<not> generating e"
    and sc: "currentScene s = Some sc"
    and ch: "choices_at (choices sc) i = Some ch"
    and g: "in_game s"
  shows "\<exists>s' sc' w'.
           makeChoice (e, w) i = (None, \<lparr> state = Some s', generating = False \<rparr>, w')
           \<and> rand_draws w' = rand_draws w
           \<and> currentScene s' = Some sc' \<and> choices sc' \<noteq> []
           \<and> (isEpilogue sc' \<longleftrightarrow> at_end (fst (resolveTurn w s sc ch i)))
           \<and> (isEpilogue sc' \<longrightarrow> length (choices sc') = 3)
           \<and> s'\<lparr>currentScene := None, savedAt := None\<rparr>
               = (fst (resolveTurn w s sc ch i))\<lparr>currentScene := None, savedAt := None\<rparr>"
proof -
  let ?s4 = "fst (resolveTurn w s sc ch i)"
  let ?w1 = "snd (resolveTurn w s sc ch i)"
  have eq: "e\<lparr>state := Some x\<rparr> = \<lparr> state = Some x, generating = False \<rparr>" for x
    using e(2) by (cases e) simp
  have w1: "rand_draws ?w1 = rand_draws w"
    by (simp add: resolveTurn_frame)
  show ?thesis
  proof (cases "at_end ?s4")
    case True
    then have "makeChoice (e, w) i
        = (None, \<lparr> state = Some (generateEpilogue ?s4), generating = False \<rparr>, ?w1)"
      using makeChoice_accepted [OF e sc ch, of w] by (simp add: eq)
    moreover have "currentScene (generateEpilogue ?s4)
        = Some \<lparr> narrative = epilogues ?s4, choices = epilogue_choices, isEpilogue = True \<rparr>"
      by (simp add: generateEpilogue_def)
    moreover have "(generateEpilogue ?s4)\<lparr>currentScene := None, savedAt := None\<rparr>
        = ?s4\<lparr>currentScene := None, savedAt := None\<rparr>"
      by (simp add: generateEpilogue_def)
    ultimately show ?thesis
      using True w1 by (simp add: epilogue_choices_def)
  next
    case False
    have "state (e\<lparr>state := Some ?s4\<rparr>) = Some ?s4" "\<not> generating (e\<lparr>state := Some ?s4\<rparr>)"
      using e(2) by simp_all
    moreover have "in_game ?s4"
      using g by (rule resolveTurn_in_game)
    ultimately obtain sc' w2 where
      n: "generateNextScene (e\<lparr>state := Some ?s4\<rparr>, ?w1) (chosen_text ch)
            = (None, \<lparr> state = Some (?s4\<lparr>currentScene := Some sc'\<rparr>), generating = False \<rparr>, w2)"
      and sc': "\<not> isEpilogue sc'" "choices sc' \<noteq> []" and w2: "rand_draws w2 = rand_draws ?w1"
      using generateNextScene_total [of "e\<lparr>state := Some ?s4\<rparr>" ?s4 ?w1 "chosen_text ch"] by blast
    let ?e2 = "\<lparr> state = Some (?s4\<lparr>currentScene := Some sc'\<rparr>), generating = False \<rparr>"
    let ?s5 = "?s4\<lparr>currentScene := Some sc', savedAt := Some (clock_reads w2 (clock_used w2))\<rparr>"
    have sv: "fst (saveGame (?e2, w2) ''auto'') = \<lparr> state = Some ?s5, generating = False \<rparr>"
      "rand_draws (snd (saveGame (?e2, w2) ''auto'')) = rand_draws w2"
      using saveGame_shape [of ?e2 "?s4\<lparr>currentScene := Some sc'\<rparr>" w2 "''auto''"] by simp_all
    have "makeChoice (e, w) i = (None, saveGame (?e2, w2) ''auto'')"
      using makeChoice_accepted [OF e sc ch, of w] False n by simp
    then have "makeChoice (e, w) i
        = (None, \<lparr> state = Some ?s5, generating = False \<rparr>, snd (saveGame (?e2, w2) ''auto''))"
      using sv(1) by (metis prod.collapse)
    moreover have "rand_draws (snd (saveGame (?e2, w2) ''auto'')) = rand_draws w"
      using sv(2) w2 w1 by simp
    moreover have "currentScene ?s5 = Some sc'"
      by simp
    moreover have "?s5\<lparr>currentScene := None, savedAt := None\<rparr>
        = ?s4\<lparr>currentScene := None, savedAt := None\<rparr>"
      by simp
    ultimately show ?thesis
      using False sc' by blast
  qed
qed

lemma history_irrelevant:
  "msg_of (s\<lparr>history := h\<rparr>) = msg_of s" "levels_up (s\<lparr>history := h\<rparr>) x = levels_up s x"
  by (simp_all add: msg_of_def levels_up_def)

lemma resolveTurn_stats:
  "xp (fst (resolveTurn w s sc ch i)) = xp_after w s"
  "level (fst (resolveTurn w s sc ch i)) = (if levels_up s (xp_after w s) then level s + 1 else level s)"
  "maxHp (fst (resolveTurn w s sc ch i)) = (if levels_up s (xp_after w s) then maxHp s + 10 else maxHp s)"
  "hp (fst (resolveTurn w s sc ch i)) = hp_after w s i"
  by (simp_all add: resolveTurn_def Let_def split_beta apply_xp apply_level apply_maxHp apply_hp
      history_irrelevant xp_after_def first_draw_def hp_after_def)

lemma resolveTurn_inventory:
  "inventory (fst (resolveTurn w s sc ch i)) = inventory s
   \<or> (\<exists>item. inventory (fst (resolveTurn w s sc ch i)) = inventory s @ [item]
         \<and> item \<notin> set (inventory s) \<and> length (inventory s) < 8
         \<and> test_any [''feat'', ''add'', ''new''] (msg_of s)
         \<and> 3 / 5 < rand_draws w (Suc (rand_used w)))"
  using apply_inventory [of w "s\<lparr>history := history s @
                [\<lparr> h_narrative = narrative sc, h_choice = chosen_text ch,
                   commitSha = map_option sha (js_index (commits s) (commitIndex s)) \<rparr>]\<rparr>" ch i]
  by (simp add: resolveTurn_def Let_def split_beta history_irrelevant)

lemma hp_after_bounds:
  assumes "1 \<le> hp s" "hp s \<le> maxHp s"
  shows "1 \<le> hp_after w s i \<and> hp_after w s i
           \<le> (if levels_up s (xp_after w s) then maxHp s + 10 else maxHp s)"
  using assms by (auto simp add: hp_after_def Let_def)

lemma resolveTurn_stats_ok:
  assumes "stats_ok s"
  shows "stats_ok (fst (resolveTurn w s sc ch i))"
proof -
  let ?s4 = "fst (resolveTurn w s sc ch i)"
  have "1 \<le> hp ?s4 \<and> hp ?s4 \<le> maxHp ?s4"
    using hp_after_bounds [of s w i] assms by (simp add: resolveTurn_stats stats_ok_def)
  moreover have "1 \<le> level ?s4 \<and> level ?s4 \<le> 10"
    using assms by (auto simp add: resolveTurn_stats stats_ok_def levels_up_def)
  moreover have "length (inventory ?s4) \<le> 8 \<and> distinct (inventory ?s4)"
    using resolveTurn_inventory [of w s sc ch i] assms by (auto simp add: stats_ok_def)
  ultimately show ?thesis
    by (simp add: stats_ok_def)
qed

lemma same_but_scene:
  assumes "s'\<lparr>currentScene := None, savedAt := None\<rparr> = t\<lparr>currentScene := None, savedAt := None\<rparr>"
  shows "hp s' = hp t" "maxHp s' = maxHp t" "xp s' = xp t" "level s' = level t"
    "inventory s' = inventory t" "commits s' = commits t" "style s' = style t"
    "commitIndex s' = commitIndex t" "history s' = history t"
proof -
  have "hp (s'\<lparr>currentScene := None, savedAt := None\<rparr>) = hp (t\<lparr>currentScene := None, savedAt := None\<rparr>)"
    "maxHp (s'\<lparr>currentScene := None, savedAt := None\<rparr>) = maxHp (t\<lparr>currentScene := None, savedAt := None\<rparr>)"
    "xp (s'\<lparr>currentScene := None, savedAt := None\<rparr>) = xp (t\<lparr>currentScene := None, savedAt := None\<rparr>)"
    "level (s'\<lparr>currentScene := None, savedAt := None\<rparr>) = level (t\<lparr>currentScene := None, savedAt := None\<rparr>)"
    "inventory (s'\<lparr>currentScene := None, savedAt := None\<rparr>) = inventory (t\<lparr>currentScene := None, savedAt := None\<rparr>)"
    "commits (s'\<lparr>currentScene := None, savedAt := None\<rparr>) = commits (t\<lparr>currentScene := None, savedAt := None\<rparr>)"
    "style (s'\<lparr>currentScene := None, savedAt := None\<rparr>) = style (t\<lparr>currentScene := None, savedAt := None\<rparr>)"
    "commitIndex (s'\<lparr>currentScene := None, savedAt := None\<rparr>) = commitIndex (t\<lparr>currentScene := None, savedAt := None\<rparr>)"
    "history (s'\<lparr>currentScene := None, savedAt := None\<rparr>) = history (t\<lparr>currentScene := None, savedAt := None\<rparr>)"
    by (simp_all only: assms)
  then show "hp s' = hp t" "maxHp s' = maxHp t" "xp s' = xp t" "level s' = level t"
    "inventory s' = inventory t" "commits s' = commits t" "style s' = style t"
    "commitIndex s' = commitIndex t" "history s' = history t"
    by simp_all
qed

lemma makeChoice_turn:
  assumes e: "state e = Some s" "\<not> generating e"
    and sc: "currentScene s = Some sc"
    and ch: "choices_at (choices sc) i = Some ch"
    and g: "in_game s"
  shows "\<exists>s' sc' w'.
           makeChoice (e, w) i = (None, \<lparr> state = Some s', generating = False \<rparr>, w')
           \<and> rand_draws w' = rand_draws w
           \<and> currentScene s' = Some sc' \<and> choices sc' \<noteq> []
           \<and> (isEpilogue sc' \<longleftrightarrow> at_end s') \<and> (isEpilogue sc' \<longrightarrow> length (choices sc') = 3)
           \<and> in_game s' \<and> commits s' = commits s \<and> style s' = style s
           \<and> commitIndex s' = min (commitIndex s + 1) (int (length (commits s)) - 1)
           \<and> length (history s') = Suc (length (history s))
           \<and> xp s' = xp_after w s
           \<and> level s' = (if levels_up s (xp_after w s) then level s + 1 else level s)
           \<and> maxHp s' = (if levels_up s (xp_after w s) then maxHp s + 10 else maxHp s)
           \<and> hp s' = hp_after w s i
           \<and> (inventory s' = inventory s
                \<or> (\<exists>item. inventory s' = inventory s @ [item]
                      \<and> item \<notin> set (inventory s) \<and> length (inventory s) < 8
                      \<and> test_any [''feat'', ''add'', ''new''] (msg_of s)
                      \<and> 3 / 5 < rand_draws w (Suc (rand_used w))))
           \<and> (stats_ok s \<longrightarrow> stats_ok s')"
proof -
  let ?s4 = "fst (resolveTurn w s sc ch i)"
  obtain s' sc' w' where
    m: "makeChoice (e, w) i = (None, \<lparr> state = Some s', generating = False \<rparr>, w')"
    and w': "rand_draws w' = rand_draws w"
    and sc': "currentScene s' = Some sc'" "choices sc' \<noteq> []"
      "isEpilogue sc' \<longleftrightarrow> at_end ?s4" "isEpilogue sc' \<longrightarrow> length (choices sc') = 3"
    and eq: "s'\<lparr>currentScene := None, savedAt := None\<rparr> = ?s4\<lparr>currentScene := None, savedAt := None\<rparr>"
    using makeChoice_step [OF e sc ch g, of w] by blast
  note f = same_but_scene [OF eq]
  have "at_end s' = at_end ?s4"
    by (simp add: at_end_def f)
  moreover have "in_game s'"
    using resolveTurn_in_game [OF g, of w sc ch i] by (simp add: in_game_def f)
  moreover have "stats_ok s \<longrightarrow> stats_ok s'"
    using resolveTurn_stats_ok [of s w sc ch i] by (simp add: stats_ok_def f)
  moreover have "inventory s' = inventory s
      \<or> (\<exists>item. inventory s' = inventory s @ [item]
            \<and> item \<notin> set (inventory s) \<and> length (inventory s) < 8
            \<and> test_any [''feat'', ''add'', ''new''] (msg_of s)
            \<and> 3 / 5 < rand_draws w (Suc (rand_used w)))"
    using resolveTurn_inventory [of w s sc ch i] by (simp add: f)
  ultimately show ?thesis
    using m w' sc' by (simp add: f resolveTurn_frame resolveTurn_stats)
qed

text \<open>
  \<open>startGame\<close> on a non-empty commit list yields a game in progress with the initial
  statistics, and every later \<open>makeChoice\<close>, accepted or not, keeps it so.
\<close>

lemma startGame_begins:
  assumes "cs \<noteq> []" "\<not> generating e0"
  shows "\<exists>s sc w. startGame (e0, w0) rp st cs an = (None, \<lparr> state = Some s, generating = False \<rparr>, w)
           \<and> rand_draws w = rand_draws w0
           \<and> currentScene s = Some sc \<and> choices sc \<noteq> [] \<and> \<not> isEpilogue sc
           \<and> in_game s \<and> stats_ok s \<and> commits s = cs \<and> style s = st
           \<and> commitIndex s = 0 \<and> history s = []
           \<and> hp s = 100 \<and> maxHp s = 100 \<and> xp s = 0 \<and> level s = 1 \<and> inventory s = []"
proof -
  let ?s0 = "fst (createInitialState w0 rp st cs an)"
  let ?w1 = "snd (createInitialState w0 rp st cs an)"
  have s0: "commits ?s0 = cs" "style ?s0 = st" "commitIndex ?s0 = 0" "history ?s0 = []"
    "hp ?s0 = 100" "maxHp ?s0 = 100" "xp ?s0 = 0" "level ?s0 = 1" "inventory ?s0 = []"
    "rand_draws ?w1 = rand_draws w0"
    by (simp_all add: createInitialState_def Date_now_def)
  have g: "in_game ?s0"
    using assms(1) by (simp add: in_game_def s0)
  have "state (e0\<lparr>state := Some ?s0\<rparr>) = Some ?s0" "\<not> generating (e0\<lparr>state := Some ?s0\<rparr>)"
    using assms(2) by simp_all
  then obtain sc w where n: "generateNextScene (e0\<lparr>state := Some ?s0\<rparr>, ?w1) None
        = (None, \<lparr> state = Some (?s0\<lparr>currentScene := Some sc\<rparr>), generating = False \<rparr>, w)"
    and sc: "\<not> isEpilogue sc" "choices sc \<noteq> []" and w: "rand_draws w = rand_draws ?w1"
    using generateNextScene_total [OF _ _ g, of "e0\<lparr>state := Some ?s0\<rparr>" ?w1 None] by blast
  have "startGame (e0, w0) rp st cs an
      = (None, \<lparr> state = Some (?s0\<lparr>currentScene := Some sc\<rparr>), generating = False \<rparr>, w)"
    using n by (simp add: startGame_def split_beta)
  moreover have "in_game (?s0\<lparr>currentScene := Some sc\<rparr>)" "stats_ok (?s0\<lparr>currentScene := Some sc\<rparr>)"
    using g by (simp_all add: in_game_def stats_ok_def s0)
  ultimately show ?thesis
    using sc w by (simp add: s0)
qed

lemma accepted_choice:
  assumes "accepted e i"
  obtains s sc ch where "state e = Some s" "\<not> generating e" "currentScene s = Some sc"
    "choices_at (choices sc) i = Some ch"
  using assms by (auto simp add: accepted_def split: option.splits)

lemma makeChoice_keeps_game_ok:
  assumes "game_ok e"
  shows "game_ok (fst (snd (makeChoice (e, w) i)))
         \<and> rand_draws (snd (snd (makeChoice (e, w) i))) = rand_draws w"
proof (cases "accepted e i")
  case False
  then show ?thesis
    using assms by (simp add: makeChoice_rejected)
next
  case True
  then obtain s sc ch where a: "state e = Some s" "\<not> generating e" "currentScene s = Some sc"
    "choices_at (choices sc) i = Some ch"
    by (rule accepted_choice)
  have g: "in_game s" "stats_ok s"
    using assms a(1) by (simp_all add: game_ok_def)
  obtain s' sc' w' where "makeChoice (e, w) i = (None, \<lparr> state = Some s', generating = False \<rparr>, w')"
    "rand_draws w' = rand_draws w" "currentScene s' = Some sc'" "in_game s'" "stats_ok s \<longrightarrow> stats_ok s'"
    using makeChoice_turn [OF a g(1), of w] by blast
  then show ?thesis
    using g(2) by (simp add: game_ok_def)
qed

lemma play_keeps_game_ok:
  "game_ok e \<Longrightarrow> game_ok (fst (play (e, w) js)) \<and> rand_draws (snd (play (e, w) js)) = rand_draws w"
proof (induction js arbitrary: e w)
  case Nil
  then show ?case by simp
next
  case (Cons i js)
  let ?r = "snd (makeChoice (e, w) i)"
  have step: "game_ok (fst ?r)" "rand_draws (snd ?r) = rand_draws w"
    using makeChoice_keeps_game_ok [OF Cons.prems, of w i] by simp_all
  have "game_ok (fst (play (fst ?r, snd ?r) js))
      \<and> rand_draws (snd (play (fst ?r, snd ?r) js)) = rand_draws (snd ?r)"
    using step(1) by (rule Cons.IH)
  then show ?case
    using step(2) by simp
qed

lemma reachable_game_ok:
  assumes "cs \<noteq> []" "\<not> generating e0"
    and "play (snd (startGame (e0, w0) rp st cs an)) js = (e, w)"
  shows "game_ok e \<and> rand_draws w = rand_draws w0"
proof -
  obtain s sc w1 where st: "startGame (e0, w0) rp st cs an
        = (None, \<lparr> state = Some s, generating = False \<rparr>, w1)"
    and w1: "rand_draws w1 = rand_draws w0"
    and s: "currentScene s = Some sc" "in_game s" "stats_ok s"
    using startGame_begins [OF assms(1,2), of w0 rp st an] by blast
  have "game_ok \<lparr> state = Some s, generating = False \<rparr>"
    using s by (simp add: game_ok_def)
  then have "game_ok (fst (play (\<lparr> state = Some s, generating = False \<rparr>, w1) js))
      \<and> rand_draws (snd (play (\<lparr> state = Some s, generating = False \<rparr>, w1) js)) = rand_draws w1"
    by (rule play_keeps_game_ok)
  then show ?thesis
    using assms(3) st w1 by simp
qed

section \<open>Patterns, thresholds and draws\<close>

text \<open>
  The patterns of \<open>applyChoiceConsequences\<close> against those of the analyzer:
  \<open>/fix|bug|patch/\<close> on the lower-cased subject matches what
  \<open>/fix|bug|patch|hotfix/i\<close> matches, since \<open>hotfix\<close> contains \<open>fix\<close>, and
  \<open>/feat|add|new/\<close> matches less than \<open>/feat|add|new|implement/i\<close>.
\<close>

lemma startsWith_append: "startsWith (p @ r) p"
  by (induction p) simp_all

lemma startsWith_split: "startsWith s p \<Longrightarrow> \<exists>r. s = p @ r"
proof (induction s p rule: startsWith.induct)
  case (1 s)
  then show ?case by simp
next
  case (2 p ps)
  then show ?case by simp
next
  case (3 c cs p ps)
  then show ?case by auto
qed

lemma includes_str_suffix: "includes_str (a @ p @ r) p"
proof (induction a)
  case Nil
  show ?case
  proof (cases "p @ r")
    case Nil
    then show ?thesis by simp
  next
    case (Cons c cs)
    have "startsWith (p @ r) p"
      by (rule startsWith_append)
    then have "startsWith (c # cs) p"
      by (simp only: Cons)
    then have "includes_str (c # cs) p"
      by simp
    then show ?thesis
      by (simp add: Cons)
  qed
next
  case (Cons c a)
  then show ?case by simp
qed

lemma includes_hotfix: "includes_str m ''hotfix'' \<Longrightarrow> includes_str m ''fix''"
proof (induction m)
  case Nil
  then show ?case by simp
next
  case (Cons c cs)
  show ?case
  proof (cases "startsWith (c # cs) ''hotfix''")
    case True
    then obtain r where "c # cs = ''hotfix'' @ r"
      using startsWith_split by blast
    then have "c # cs = ''hot'' @ ''fix'' @ r"
      by simp
    then show ?thesis
      using includes_str_suffix [of "''hot''" "''fix''" r] by simp
  next
    case False
    have "includes_str (c # cs) ''hotfix'' = (startsWith (c # cs) ''hotfix'' \<or> includes_str cs ''hotfix'')"
      by (rule includes_str.simps)
    with False Cons.prems have "includes_str cs ''hotfix''"
      by blast
    then have "includes_str cs ''fix''"
      by (rule Cons.IH)
    then show ?thesis
      by simp
  qed
qed

lemma fix_pattern_eq:
  "test_any [''fix'', ''bug'', ''patch''] (toLowerCase subj) = test_any_i fixPattern subj"
  using includes_hotfix [of "toLowerCase subj"]
  by (auto simp add: test_any_def test_any_i_def fixPattern_def)

lemma feat_pattern_imp:
  "test_any [''feat'', ''add'', ''new''] (toLowerCase subj) \<Longrightarrow> test_any_i featPattern subj"
  by (auto simp add: test_any_def test_any_i_def featPattern_def)

lemma msg_of_in_game: "in_game s \<Longrightarrow> msg_of s = toLowerCase (current_subject s)"
  by (simp add: msg_of_def in_game_def js_index_def current_subject_def)

text \<open>For the levels 1 to 9 the threshold is the table entry; a draw in \<open>[0, 1)\<close> gives 20 to 49 XP.\<close>

lemma nextLevelXp_threshold:
  assumes "1 \<le> l" "l < 10"
  shows "nextLevelXp l = XP_PER_LEVEL ! nat l"
proof -
  have "l = 1 \<or> l = 2 \<or> l = 3 \<or> l = 4 \<or> l = 5 \<or> l = 6 \<or> l = 7 \<or> l = 8 \<or> l = 9"
    using assms by arith
  then show ?thesis
    by (auto simp add: nextLevelXp_def js_index_def XP_PER_LEVEL_def)
qed

lemma xp_gain_range:
  assumes "random_ok w"
  shows "20 \<le> xp_after w s - xp s \<and> xp_after w s - xp s \<le> 49"
proof -
  have r: "0 \<le> first_draw w" "first_draw w < 1"
    using assms by (simp_all add: random_ok_def first_draw_def)
  have "0 \<le> first_draw w * 30" "first_draw w * 30 < 30"
    using r by simp_all
  then have "0 \<le> \<lfloor>first_draw w * 30\<rfloor>" "\<lfloor>first_draw w * 30\<rfloor> < 30"
    by (simp_all add: floor_less_iff)
  then show ?thesis
    by (simp add: xp_after_def)
qed

section \<open>The epilogue\<close>

lemma accepted_in_state:
  assumes "accepted e i" "state e = Some s"
  obtains sc ch where "\<not> generating e" "currentScene s = Some sc"
    "choices_at (choices sc) i = Some ch"
  using assms by (auto simp add: accepted_def split: option.splits)

text \<open>
  C4.  An accepted \<open>makeChoice\<close> in a game in progress advances the cursor by one, up to
  the last index, records the turn, and shows the epilogue exactly when the cursor is then
  at the last index and the history holds more than one turn; the epilogue scene has
  \<open>isEpilogue = true\<close> and exactly 3 choices.  In a 3-commit game at its start the first
  choice does not reach the epilogue and the second does.
\<close>

theorem epilogue_transition:
  assumes "state e = Some s" and "in_game s" and "accepted e i" and "style s \<in> set styles"
  shows "\<exists>s' sc' w'.
           makeChoice (e, w) i = (None, \<lparr> state = Some s', generating = False \<rparr>, w')
           \<and> currentScene s' = Some sc' \<and> choices sc' \<noteq> []
           \<and> commitIndex s' = min (commitIndex s + 1) (int (length (commits s)) - 1)
           \<and> length (history s') = Suc (length (history s)) \<and> commits s' = commits s
           \<and> (isEpilogue sc' \<longleftrightarrow>
                 commitIndex s' = int (length (commits s')) - 1 \<and> 1 < length (history s'))
           \<and> (isEpilogue sc' \<longrightarrow> length (choices sc') = 3)
           \<and> (length (commits s) = 3 \<and> commitIndex s = 0 \<and> history s = [] \<longrightarrow>
                 \<not> isEpilogue sc'
                 \<and> (\<forall>j. accepted \<lparr> state = Some s', generating = False \<rparr> j \<longrightarrow>
                        epilogue_shown (snd (makeChoice (\<lparr> state = Some s', generating = False \<rparr>, w') j))))"
proof -
  obtain sc ch where a: "\<not> generating e" "currentScene s = Some sc"
    "choices_at (choices sc) i = Some ch"
    using assms(3,1) by (rule accepted_in_state)
  obtain s' sc' w' where
    m: "makeChoice (e, w) i = (None, \<lparr> state = Some s', generating = False \<rparr>, w')"
    and sc': "currentScene s' = Some sc'" "isEpilogue sc' \<longleftrightarrow> at_end s'"
      "isEpilogue sc' \<longrightarrow> length (choices sc') = 3" "choices sc' \<noteq> []"
    and s': "in_game s'" "commits s' = commits s"
      "commitIndex s' = min (commitIndex s + 1) (int (length (commits s)) - 1)"
      "length (history s') = Suc (length (history s))"
    using makeChoice_turn [OF assms(1) a assms(2), of w] by blast
  have iff: "at_end s' \<longleftrightarrow> commitIndex s' = int (length (commits s')) - 1 \<and> 1 < length (history s')"
    using s'(1) by (auto simp add: at_end_def in_game_def)
  have three: "\<not> isEpilogue sc'
      \<and> (\<forall>j. accepted \<lparr> state = Some s', generating = False \<rparr> j \<longrightarrow>
             epilogue_shown (snd (makeChoice (\<lparr> state = Some s', generating = False \<rparr>, w') j)))"
    if h: "length (commits s) = 3" "commitIndex s = 0" "history s = []"
  proof -
    have first: "\<not> isEpilogue sc'"
      using h s' sc'(2) by (simp add: iff)
    have "epilogue_shown (snd (makeChoice (\<lparr> state = Some s', generating = False \<rparr>, w') j))"
      if acc: "accepted \<lparr> state = Some s', generating = False \<rparr> j" for j
    proof -
      let ?e' = "\<lparr> state = Some s', generating = False \<rparr>"
      have st: "state ?e' = Some s'"
        by simp
      obtain tsc tch where b: "\<not> generating ?e'" "currentScene s' = Some tsc"
        "choices_at (choices tsc) j = Some tch"
        using acc st by (rule accepted_in_state)
      obtain s'' sc'' w'' where
        m2: "makeChoice (?e', w') j = (None, \<lparr> state = Some s'', generating = False \<rparr>, w'')"
        and sc'': "currentScene s'' = Some sc''" "isEpilogue sc'' \<longleftrightarrow> at_end s''"
          "isEpilogue sc'' \<longrightarrow> length (choices sc'') = 3"
        and s'': "commits s'' = commits s'"
          "commitIndex s'' = min (commitIndex s' + 1) (int (length (commits s')) - 1)"
          "length (history s'') = Suc (length (history s'))"
        using makeChoice_turn [OF st b s'(1), of w'] by blast
      have "at_end s''"
        using h s' s'' by (simp add: at_end_def)
      then show ?thesis
        using m2 sc'' by (simp add: epilogue_shown_def scene_of_def)
    qed
    with first show ?thesis
      by blast
  qed
  show ?thesis
    using m sc' s' iff three by auto
qed


theorem epilogue_transition_witness:
  "\<not> epilogue_shown (snd (startGame (new_StoryEngine, fixture_world) fixture_repo ''horror''
                             fixture_commits None))
   \<and> \<not> epilogue_shown (play (snd (startGame (new_StoryEngine, fixture_world) fixture_repo ''horror''
                                   fixture_commits None)) [Index 0])
   \<and> epilogue_shown (play (snd (startGame (new_StoryEngine, fixture_world) fixture_repo ''horror''
                                fixture_commits None)) [Index 0, Index 0])"
proof -
  let ?start = "startGame (new_StoryEngine, fixture_world) fixture_repo ''horror'' fixture_commits None"
  have ne: "fixture_commits \<noteq> []" and ng: "\<not> generating new_StoryEngine"
    by (simp_all add: fixture_commits_def new_StoryEngine_def)
  obtain s sc w1 where
    st: "?start = (None, \<lparr> state = Some s, generating = False \<rparr>, w1)"
    and s: "currentScene s = Some sc" "choices sc \<noteq> []" "\<not> isEpilogue sc" "in_game s"
      "commits s = fixture_commits" "commitIndex s = 0" "history s = []" "style s = ''horror''"
    using startGame_begins [OF ne ng, of fixture_world fixture_repo "''horror''" None] by blast
  let ?e1 = "\<lparr> state = Some s, generating = False \<rparr>"
  have acc1: "accepted ?e1 (Index 0)"
    using s(1,2) by (simp add: accepted_def choices_at_def js_index_def)
  have len: "length (commits s) = 3"
    by (simp add: s fixture_commits_def)
  have sty: "style s \<in> set styles"
    by (simp add: s styles_def)
  obtain s' sc' w' where
    m: "makeChoice (?e1, w1) (Index 0) = (None, \<lparr> state = Some s', generating = False \<rparr>, w')"
    and sc': "currentScene s' = Some sc'" "choices sc' \<noteq> []"
    and three: "length (commits s) = 3 \<and> commitIndex s = 0 \<and> history s = [] \<longrightarrow>
                 \<not> isEpilogue sc'
                 \<and> (\<forall>j. accepted \<lparr> state = Some s', generating = False \<rparr> j \<longrightarrow>
                        epilogue_shown (snd (makeChoice (\<lparr> state = Some s', generating = False \<rparr>, w') j)))"
    using epilogue_transition [OF _ s(4) acc1 sty, of w1] by auto
  let ?e2 = "\<lparr> state = Some s', generating = False \<rparr>"
  have acc2: "accepted ?e2 (Index 0)"
    using sc' by (simp add: accepted_def choices_at_def js_index_def)
  have "\<not> isEpilogue sc'" "epilogue_shown (snd (makeChoice (?e2, w') (Index 0)))"
    using three len s(6,7) acc2 by blast+
  then show ?thesis
    using st s(1,3) m sc'(1) by (simp add: epilogue_shown_def scene_of_def)
qed

section \<open>Hit points\<close>

text \<open>A state reached from \<open>startGame\<close> by any list of choices, and an accepted choice made there.\<close>

lemma reachable_turn:
  assumes "cs \<noteq> []" and "\<not> generating e0"
    and "play (snd (startGame (e0, w0) rp st cs an)) js = (e, w)"
    and "state e = Some s" and "accepted e i"
  shows "stats_ok s \<and> in_game s \<and> rand_draws w = rand_draws w0
         \<and> (\<exists>s' w'. makeChoice (e, w) i = (None, \<lparr> state = Some s', generating = False \<rparr>, w')
               \<and> stats_ok s'
               \<and> xp s' = xp_after w s
               \<and> level s' = (if levels_up s (xp_after w s) then level s + 1 else level s)
               \<and> maxHp s' = (if levels_up s (xp_after w s) then maxHp s + 10 else maxHp s)
               \<and> hp s' = hp_after w s i
               \<and> (inventory s' = inventory s
                    \<or> (\<exists>item. inventory s' = inventory s @ [item]
                          \<and> item \<notin> set (inventory s) \<and> length (inventory s) < 8
                          \<and> test_any [''feat'', ''add'', ''new''] (msg_of s)
                          \<and> 3 / 5 < rand_draws w (Suc (rand_used w)))))"
proof -
  have ok: "game_ok e" and w: "rand_draws w = rand_draws w0"
    using reachable_game_ok [OF assms(1,2,3)] by simp_all
  then have g: "in_game s" "stats_ok s"
    using assms(4) by (simp_all add: game_ok_def)
  obtain sc ch where a: "\<not> generating e" "currentScene s = Some sc" "choices_at (choices sc) i = Some ch"
    using assms(5,4) by (rule accepted_in_state)
  show ?thesis
    using makeChoice_turn [OF assms(4) a g(1), of w] g w by auto
qed

lemma reachable_state:
  assumes "cs \<noteq> []" and "\<not> generating e0"
    and "play (snd (startGame (e0, w0) rp st cs an)) js = (e, w)"
    and "state e = Some s"
  shows "stats_ok s \<and> in_game s \<and> rand_draws w = rand_draws w0"
  using reachable_game_ok [OF assms(1,2,3)] assms(4) by (simp add: game_ok_def)



text \<open>The fixture game: its start and the figures of its first turn.\<close>

lemma fixture_start:
  obtains s sc w1 where
    "startGame (new_StoryEngine, fixture_world) fixture_repo st fixture_commits None
       = (None, \<lparr> state = Some s, generating = False \<rparr>, w1)"
    "rand_draws w1 = rand_draws fixture_world"
    "currentScene s = Some sc" "choices sc \<noteq> []"
    "commits s = fixture_commits" "commitIndex s = 0"
    "hp s = 100" "maxHp s = 100" "xp s = 0" "level s = 1" "inventory s = []"
proof -
  have "fixture_commits \<noteq> []" "\<not> generating new_StoryEngine"
    by (simp_all add: fixture_commits_def new_StoryEngine_def)
  then show ?thesis
    using startGame_begins [of fixture_commits new_StoryEngine fixture_world fixture_repo st None] that
    by blast
qed

lemma fixture_first_turn:
  assumes "rand_draws w = rand_draws fixture_world" "commits s = fixture_commits" "commitIndex s = 0"
    "xp s = 0" "level s = 1"
  shows "xp_after w s = 41" "\<not> levels_up s 41" "test_any_i fixPattern (current_subject s)"
proof -
  show "xp_after w s = 41"
    using assms by (simp add: xp_after_def first_draw_def fixture_world_def)
  show "\<not> levels_up s 41"
    using assms by (simp add: levels_up_def nextLevelXp_def js_index_def XP_PER_LEVEL_def)
  have "current_subject s = ''fix: crash on start''"
    using assms by (simp add: current_subject_def fixture_commits_def fixture_commit_def)
  then show "test_any_i fixPattern (current_subject s)"
    by (simp add: test_any_i_def test_any_def fixPattern_def toLowerCase_def lower_char_def)
qed


section \<open>Experience, levels and the inventory\<close>

text \<open>
  C6.  Along every sequence of \<open>makeChoice\<close> calls from the initial state the level stays
  in \<open>[1, 10]\<close>.  An accepted call raises XP by a value in \<open>20..49\<close>; the level goes up, by
  exactly one, exactly when the level is below 10 and the resulting XP reaches
  \<open>XP_PER_LEVEL[level]\<close>; then \<open>maxHp\<close> grows by 10 and \<open>hp\<close> is healed by 20, capped at
  the new \<open>maxHp\<close> (after which the HP rule of a fix commit applies); otherwise level and
  \<open>maxHp\<close> stay.
\<close>

theorem xp_and_level_rule:
  assumes "cs \<noteq> []" and "\<not> generating e0" and "random_ok w0"
    and "play (snd (startGame (e0, w0) rp st cs an)) js = (e, w)"
    and "state e = Some s" and "st \<in> set styles"
  shows "1 \<le> level s \<and> level s \<le> 10
         \<and> (\<forall>i. accepted e i \<longrightarrow>
               (\<exists>s' w'. makeChoice (e, w) i = (None, \<lparr> state = Some s', generating = False \<rparr>, w')
                  \<and> 20 \<le> xp s' - xp s \<and> xp s' - xp s \<le> 49
                  \<and> (level s' = level s + 1 \<longleftrightarrow>
                        level s < 10 \<and> XP_PER_LEVEL ! nat (level s) \<le> xp s')
                  \<and> (level s' = level s + 1 \<longrightarrow>
                        maxHp s' = maxHp s + 10
                        \<and> hp s' = (if test_any_i fixPattern (current_subject s)
                                   then max 1 (min (maxHp s + 10)
                                          (min (hp s + 20) (maxHp s + 10)
                                           + (if i = Index 0 then - 10 else if i = Index 2 then 5 else 0)))
                                   else min (hp s + 20) (maxHp s + 10)))
                  \<and> (level s' \<noteq> level s + 1 \<longrightarrow> level s' = level s \<and> maxHp s' = maxHp s)
                  \<and> 1 \<le> level s' \<and> level s' \<le> 10))"
proof -
  have base: "stats_ok s" "in_game s" "rand_draws w = rand_draws w0"
    using reachable_state [OF assms(1,2,4,5)] by simp_all
  have lv: "1 \<le> level s" "level s \<le> 10"
    using base(1) by (simp_all add: stats_ok_def)
  have rnd: "random_ok w"
    using assms(3) base(3) by (simp add: random_ok_def)
  have up: "levels_up s x \<longleftrightarrow> level s < 10 \<and> XP_PER_LEVEL ! nat (level s) \<le> x" for x
  proof (cases "level s < 10")
    case True
    then show ?thesis
      using nextLevelXp_threshold [OF lv(1) True] by (simp add: levels_up_def)
  next
    case False
    then show ?thesis
      by (simp add: levels_up_def)
  qed
  have fx: "test_any [''fix'', ''bug'', ''patch''] (msg_of s) = test_any_i fixPattern (current_subject s)"
    using base(2) by (simp add: msg_of_in_game fix_pattern_eq)
  have step: "\<exists>s' w'. makeChoice (e, w) i = (None, \<lparr> state = Some s', generating = False \<rparr>, w')
        \<and> 20 \<le> xp s' - xp s \<and> xp s' - xp s \<le> 49
        \<and> (level s' = level s + 1 \<longleftrightarrow> level s < 10 \<and> XP_PER_LEVEL ! nat (level s) \<le> xp s')
        \<and> (level s' = level s + 1 \<longrightarrow>
              maxHp s' = maxHp s + 10
              \<and> hp s' = (if test_any_i fixPattern (current_subject s)
                         then max 1 (min (maxHp s + 10)
                                (min (hp s + 20) (maxHp s + 10)
                                 + (if i = Index 0 then - 10 else if i = Index 2 then 5 else 0)))
                         else min (hp s + 20) (maxHp s + 10)))
        \<and> (level s' \<noteq> level s + 1 \<longrightarrow> level s' = level s \<and> maxHp s' = maxHp s)
        \<and> 1 \<le> level s' \<and> level s' \<le> 10"
    if acc: "accepted e i" for i
  proof -
    obtain s' w' where m: "makeChoice (e, w) i = (None, \<lparr> state = Some s', generating = False \<rparr>, w')"
      and s': "stats_ok s'" "xp s' = xp_after w s"
        "level s' = (if levels_up s (xp_after w s) then level s + 1 else level s)"
        "maxHp s' = (if levels_up s (xp_after w s) then maxHp s + 10 else maxHp s)"
        "hp s' = hp_after w s i"
      using reachable_turn [OF assms(1,2,4,5) acc] by blast
    have gain: "20 \<le> xp s' - xp s \<and> xp s' - xp s \<le> 49"
      using xp_gain_range [OF rnd, of s] by (simp add: s')
    have "level s' = level s + 1 \<longleftrightarrow> levels_up s (xp s')"
      by (simp add: s')
    then have iff: "level s' = level s + 1 \<longleftrightarrow> level s < 10 \<and> XP_PER_LEVEL ! nat (level s) \<le> xp s'"
      by (simp only: up)
    have when_up: "maxHp s' = maxHp s + 10
        \<and> hp s' = (if test_any_i fixPattern (current_subject s)
                   then max 1 (min (maxHp s + 10)
                          (min (hp s + 20) (maxHp s + 10)
                           + (if i = Index 0 then - 10 else if i = Index 2 then 5 else 0)))
                   else min (hp s + 20) (maxHp s + 10))"
      if "level s' = level s + 1"
    proof -
      have "levels_up s (xp_after w s)"
        using that by (simp add: s' split: if_splits)
      then show ?thesis
        by (simp add: s' hp_after_def Let_def fx hpDelta_of_def)
    qed
    have when_not: "level s' = level s \<and> maxHp s' = maxHp s" if "level s' \<noteq> level s + 1"
      using that by (simp add: s' split: if_splits)
    have "1 \<le> level s' \<and> level s' \<le> 10"
      using s'(1) by (simp add: stats_ok_def)
    then show ?thesis
      using m gain iff when_up when_not by blast
  qed
  show ?thesis
    using lv step by blast
qed

theorem xp_and_level_rule_witness:
  "\<exists>e w s. play (snd (startGame (new_StoryEngine, fixture_world) fixture_repo ''scifi''
                          fixture_commits None)) [Index 0] = (e, w)
            \<and> state e = Some s \<and> 20 \<le> xp s \<and> xp s \<le> 49 \<and> level s = 1 \<and> maxHp s = 100"
proof -
  let ?start = "startGame (new_StoryEngine, fixture_world) fixture_repo ''scifi'' fixture_commits None"
  obtain s sc w1 where st: "?start = (None, \<lparr> state = Some s, generating = False \<rparr>, w1)"
    and w1: "rand_draws w1 = rand_draws fixture_world"
    and s: "currentScene s = Some sc" "choices sc \<noteq> []" "commits s = fixture_commits"
      "commitIndex s = 0" "hp s = 100" "maxHp s = 100" "xp s = 0" "level s = 1"
    by (rule fixture_start)
  let ?e1 = "\<lparr> state = Some s, generating = False \<rparr>"
  have h1: "fixture_commits \<noteq> []" "\<not> generating new_StoryEngine" "random_ok fixture_world"
    by (simp_all add: fixture_commits_def new_StoryEngine_def random_ok_def fixture_world_def)
  have sty: "''scifi'' \<in> set styles"
    by (simp add: styles_def)
  have h2: "play (snd ?start) [] = (?e1, w1)" "state ?e1 = Some s"
    by (simp_all add: st)
  have acc: "accepted ?e1 (Index 0)"
    using s(1,2) by (simp add: accepted_def choices_at_def js_index_def)
  obtain s' w' where m: "makeChoice (?e1, w1) (Index 0) = (None, \<lparr> state = Some s', generating = False \<rparr>, w')"
    and r: "20 \<le> xp s' - xp s" "xp s' - xp s \<le> 49"
      "level s' = level s + 1 \<longleftrightarrow> level s < 10 \<and> XP_PER_LEVEL ! nat (level s) \<le> xp s'"
      "level s' \<noteq> level s + 1 \<longrightarrow> level s' = level s \<and> maxHp s' = maxHp s"
    using xp_and_level_rule [OF h1 h2 sty] acc by blast
  have "\<not> (level s < 10 \<and> XP_PER_LEVEL ! nat (level s) \<le> xp s')"
    using r(2) by (simp add: s XP_PER_LEVEL_def)
  then have "level s' = 1" "maxHp s' = 100"
    using r(3,4) by (simp_all add: s)
  then show ?thesis
    using st m r(1,2) by (simp add: s)
qed

text \<open>
  C7.  Along every sequence of \<open>makeChoice\<close> calls from the initial state the inventory
  holds at most 8 entries and no duplicates.  An accepted call leaves it as it is or
  appends one item; an item is appended only when the subject of the current commit matches
  the feat-pattern and the random draw that follows the XP draw is above 0.6, and never
  when the item is already held or the inventory has 8 entries.
\<close>

theorem inventory_rule:
  assumes "cs \<noteq> []" and "\<not> generating e0" and "random_ok w0"
    and "play (snd (startGame (e0, w0) rp st cs an)) js = (e, w)"
    and "state e = Some s" and "st \<in> set styles"
  shows "length (inventory s) \<le> 8 \<and> distinct (inventory s)
         \<and> (\<forall>i. accepted e i \<longrightarrow>
               (\<exists>s' w'. makeChoice (e, w) i = (None, \<lparr> state = Some s', generating = False \<rparr>, w')
                  \<and> length (inventory s') \<le> 8 \<and> distinct (inventory s')
                  \<and> (inventory s' = inventory s
                       \<or> (\<exists>item. inventory s' = inventory s @ [item]
                             \<and> item \<notin> set (inventory s) \<and> length (inventory s) < 8
                             \<and> test_any_i featPattern (current_subject s)
                             \<and> 3 / 5 < rand_draws w (Suc (rand_used w))))))"
proof -
  have base: "stats_ok s" "in_game s"
    using reachable_state [OF assms(1,2,4,5)] by simp_all
  have step: "\<exists>s' w'. makeChoice (e, w) i = (None, \<lparr> state = Some s', generating = False \<rparr>, w')
        \<and> length (inventory s') \<le> 8 \<and> distinct (inventory s')
        \<and> (inventory s' = inventory s
             \<or> (\<exists>item. inventory s' = inventory s @ [item]
                   \<and> item \<notin> set (inventory s) \<and> length (inventory s) < 8
                   \<and> test_any_i featPattern (current_subject s)
                   \<and> 3 / 5 < rand_draws w (Suc (rand_used w))))"
    if acc: "accepted e i" for i
  proof -
    obtain s' w' where m: "makeChoice (e, w) i = (None, \<lparr> state = Some s', generating = False \<rparr>, w')"
      and s': "stats_ok s'"
      and inv: "inventory s' = inventory s
          \<or> (\<exists>item. inventory s' = inventory s @ [item]
                \<and> item \<notin> set (inventory s) \<and> length (inventory s) < 8
                \<and> test_any [''feat'', ''add'', ''new''] (msg_of s)
                \<and> 3 / 5 < rand_draws w (Suc (rand_used w)))"
      using reachable_turn [OF assms(1,2,4,5) acc] by blast
    have "test_any [''feat'', ''add'', ''new''] (msg_of s) \<Longrightarrow> test_any_i featPattern (current_subject s)"
      using base(2) by (simp add: msg_of_in_game feat_pattern_imp)
    with inv have "inventory s' = inventory s
          \<or> (\<exists>item. inventory s' = inventory s @ [item]
                \<and> item \<notin> set (inventory s) \<and> length (inventory s) < 8
                \<and> test_any_i featPattern (current_subject s)
                \<and> 3 / 5 < rand_draws w (Suc (rand_used w)))"
      by blast
    moreover have "length (inventory s') \<le> 8 \<and> distinct (inventory s')"
      using s' by (simp add: stats_ok_def)
    ultimately show ?thesis
      using m by blast
  qed
  show ?thesis
    using base(1) step by (simp add: stats_ok_def)
qed

theorem inventory_rule_witness:
  "\<exists>e w s. play (snd (startGame (new_StoryEngine, fixture_world) fixture_repo ''dnd''
                          fixture_commits None)) [Index 0, Index 1] = (e, w)
            \<and> state e = Some s \<and> length (inventory s) \<le> 8 \<and> distinct (inventory s)"
proof -
  let ?start = "startGame (new_StoryEngine, fixture_world) fixture_repo ''dnd'' fixture_commits None"
  have h1: "fixture_commits \<noteq> []" "\<not> generating new_StoryEngine" "random_ok fixture_world"
    by (simp_all add: fixture_commits_def new_StoryEngine_def random_ok_def fixture_world_def)
  obtain e w where p: "play (snd ?start) [Index 0, Index 1] = (e, w)"
    by (cases "play (snd ?start) [Index 0, Index 1]")
  have "game_ok e"
    using reachable_game_ok [OF h1(1,2) p] by simp
  then obtain s where s: "state e = Some s"
    by (cases "state e") (simp_all add: game_ok_def)
  have "length (inventory s) \<le> 8 \<and> distinct (inventory s)"
    using inventory_rule [OF h1 p s] by (simp add: styles_def)
  then show ?thesis
    using p s by blast
qed

section \<open>Typed selections\<close>

text \<open>
  Scene requests are counted: every call of \<open>generateScene\<close> on a non-empty commit list
  issues exactly one, in either mode, and nothing else issues any.  An accepted
  \<open>makeChoice\<close> therefore issues one request unless it ends the game.
\<close>

lemma inventoryGain_requests: "requests (snd (inventoryGain w m s)) = requests w"
  by (simp add: inventoryGain_def Let_def Math_random_def split: option.splits)

lemma apply_requests: "requests (snd (applyChoiceConsequences w s ch i)) = requests w"
  by (simp add: applyChoiceConsequences_unfold inventoryGain_requests gainXp_world)

lemma resolveTurn_requests: "requests (snd (resolveTurn w s sc ch i)) = requests w"
  by (simp add: resolveTurn_def Let_def split_beta apply_requests)

lemma resolveTurn_history:
  "history (fst (resolveTurn w s sc ch i)) =
     history s @ [\<lparr> h_narrative = narrative sc, h_choice = chosen_text ch,
                    commitSha = map_option sha (js_index (commits s) (commitIndex s)) \<rparr>]"
  by (simp add: resolveTurn_def Let_def split_beta apply_frame)

lemma generateViaAPI_requests: "requests (snd (generateViaAPI w sys usr)) = Suc (requests w)"
  by (cases "capability w (requests w) sys usr") (simp_all add: generateViaAPI_def complete_def)

lemma generateViaLocal_requests: "requests (snd (generateViaLocal w sys usr)) = Suc (requests w)"
  by (cases "capability w (requests w) sys usr")
    (simp_all add: generateViaLocal_def complete_def generateFallbackScene_def)

lemma generateScene_requests:
  assumes "cs \<noteq> []"
  shows "requests (snd (generateScene w cs i st h x items pc)) = Suc (requests w)"
proof -
  have "js_index cs 0 = Some (cs ! 0)"
    using assms by (simp add: js_index_def)
  then obtain c where c: "or_else (js_index cs i) (js_index cs 0) = Some c"
    by (cases "js_index cs i") (simp_all add: or_else_def)
  show ?thesis
    by (simp add: generateScene_def Let_def c generateViaAPI_requests generateViaLocal_requests)
qed

lemma generateNextScene_requests:
  assumes "state e = Some s" "\<not> generating e" "in_game s"
  shows "requests (snd (snd (generateNextScene (e, w) pc))) = Suc (requests w)"
proof -
  let ?g = "generateScene w (commits s) (commitIndex s) (style s) (hp s) (xp s) (inventory s) pc"
  have ix: "js_index (commits s) (commitIndex s) = Some (commits s ! nat (commitIndex s))"
    using assms(3) by (simp add: in_game_def js_index_def)
  obtain r w1 where g: "?g = (r, w1)"
    by (cases ?g)
  have "requests (snd ?g) = Suc (requests w)"
    using assms(3) by (simp add: generateScene_requests in_game_def)
  then have w1: "requests w1 = Suc (requests w)"
    by (simp add: g)
  show ?thesis
  proof (cases r)
    case (Inr sc)
    then show ?thesis
      using assms(1,2) g w1 by (simp add: generateNextScene_def)
  next
    case (Inl err)
    obtain sc where "generateFallbackScene w1 (Some (commits s ! nat (commitIndex s)))
          (style s) (nat (commitIndex s)) (length (commits s))
        = (Inr sc, w1\<lparr>rand_used := Suc (rand_used w1)\<rparr>)"
      using generateFallbackScene_Some by blast
    then show ?thesis
      using assms(1,2) g Inl ix w1 by (simp add: generateNextScene_def)
  qed
qed

lemma saveGame_requests: "requests (snd (saveGame ew slot)) = requests (snd ew)"
  by (simp add: saveGame_def storage_saveGame_def Date_now_def Let_def split: option.splits)

lemma makeChoice_requests:
  assumes e: "state e = Some s" "\<not> generating e"
    and sc: "currentScene s = Some sc"
    and ch: "choices_at (choices sc) i = Some ch"
    and g: "in_game s"
  shows "requests (snd (snd (makeChoice (e, w) i)))
           = (if at_end (fst (resolveTurn w s sc ch i)) then requests w else Suc (requests w))"
proof -
  let ?s4 = "fst (resolveTurn w s sc ch i)"
  let ?w1 = "snd (resolveTurn w s sc ch i)"
  let ?e1 = "e\<lparr>state := Some ?s4\<rparr>"
  show ?thesis
  proof (cases "at_end ?s4")
    case True
    then show ?thesis
      using makeChoice_accepted [OF e sc ch, of w] by (simp add: resolveTurn_requests)
  next
    case False
    have e1: "state ?e1 = Some ?s4" "\<not> generating ?e1"
      using e(2) by simp_all
    have g4: "in_game ?s4"
      using g by (rule resolveTurn_in_game)
    obtain sc' w2 where
      n: "generateNextScene (?e1, ?w1) (chosen_text ch)
            = (None, \<lparr> state = Some (?s4\<lparr>currentScene := Some sc'\<rparr>), generating = False \<rparr>, w2)"
      using generateNextScene_total [OF e1 g4, of ?w1 "chosen_text ch"] by blast
    have "requests (snd (snd (generateNextScene (?e1, ?w1) (chosen_text ch)))) = Suc (requests ?w1)"
      using e1 g4 by (rule generateNextScene_requests)
    then have w2: "requests w2 = Suc (requests w)"
      by (simp add: n resolveTurn_requests)
    have "makeChoice (e, w) i
        = (None, saveGame (\<lparr> state = Some (?s4\<lparr>currentScene := Some sc'\<rparr>), generating = False \<rparr>, w2) ''auto'')"
      using makeChoice_accepted [OF e sc ch, of w] False n by simp
    then show ?thesis
      using False w2 by (simp add: saveGame_requests)
  qed
qed

text \<open>
  C8.  The guard of \<open>makeChoice\<close> does not reject every selection that is not a choice
  of the current scene.  The custom-choice input passes the typed text; for the text
  \<open>length\<close> the guard reads \<open>scene.choices['length']\<close>, the number of choices, which
  is truthy, and a full turn is played.  In the 3-commit game as \<open>startGame\<close> leaves it
  (cursor 0, XP 0, empty history) the call returns without an error, and afterwards the
  cursor is 1, XP is 41, the history holds one turn whose choice text is \<open>undefined\<close>,
  and one more scene request has been issued.
\<close>

theorem typed_text_is_played_as_a_choice:
  "map_option (\<lambda>s. (commitIndex s, xp s, history s)) (state (fst fixture_game)) = Some (0, 0, [])
   \<and> fst (makeChoice fixture_game (Text ''length'')) = None
   \<and> map_option (\<lambda>s. (commitIndex s, xp s, map h_choice (history s)))
        (state (fst (snd (makeChoice fixture_game (Text ''length''))))) = Some (1, 41, [None])
   \<and> requests (snd (snd (makeChoice fixture_game (Text ''length''))))
        = Suc (requests (snd fixture_game))"
proof -
  have ne: "fixture_commits \<noteq> []" and ng: "\<not> generating new_StoryEngine"
    by (simp_all add: fixture_commits_def new_StoryEngine_def)
  obtain s sc w1 where
    st: "startGame (new_StoryEngine, fixture_world) fixture_repo ''scifi'' fixture_commits None
           = (None, \<lparr> state = Some s, generating = False \<rparr>, w1)"
    and rd: "rand_draws w1 = rand_draws fixture_world"
    and s: "currentScene s = Some sc" "choices sc \<noteq> []" "in_game s"
      "commits s = fixture_commits" "commitIndex s = 0" "history s = []" "xp s = 0" "level s = 1"
    using startGame_begins [OF ne ng, of fixture_world fixture_repo "''scifi''" None] by blast
  let ?e = "\<lparr> state = Some s, generating = False \<rparr>"
  let ?s4 = "fst (resolveTurn w1 s sc OtherValue (Text ''length''))"
  have fg: "fixture_game = (?e, w1)"
    by (simp add: fixture_game_def st)
  have e: "state ?e = Some s" "\<not> generating ?e"
    by simp_all
  have ch: "choices_at (choices sc) (Text ''length'') = Some OtherValue"
    using s(2) by (rule choices_at_length)
  obtain s' sc' w' where
    m: "makeChoice (?e, w1) (Text ''length'') = (None, \<lparr> state = Some s', generating = False \<rparr>, w')"
    and eq: "s'\<lparr>currentScene := None, savedAt := None\<rparr> = ?s4\<lparr>currentScene := None, savedAt := None\<rparr>"
    using makeChoice_step [OF e s(1) ch s(3), of w1] by blast
  note f = same_but_scene [OF eq]
  have len: "int (length (commits s)) = 3"
    by (simp add: s(4) fixture_commits_def)
  have "commitIndex s' = 1"
    by (simp add: f resolveTurn_frame s(5) len)
  moreover have "xp s' = 41"
    using fixture_first_turn(1) [OF rd s(4,5,7,8)] by (simp add: f resolveTurn_stats)
  moreover have "map h_choice (history s') = [None]"
    by (simp add: f resolveTurn_history s(6) chosen_text_def)
  moreover have "\<not> at_end ?s4"
    by (simp add: at_end_def resolveTurn_frame s(5,6) len)
  then have "requests (snd (snd (makeChoice (?e, w1) (Text ''length'')))) = Suc (requests w1)"
    using makeChoice_requests [OF e s(1) ch s(3), of w1] by simp
  ultimately show ?thesis
    using m by (simp add: fg s(5,6,7))
qed

end
